theory Spec2Isabelle
  imports Complex_Main "HOL-Library.Word"
begin

unbundle bit_operations_syntax

section \<open>Machine values and errors\<close>

text \<open>
  The sketch of \<^verbatim>\<open>cpc_sketch_impl.hpp\<close> is modelled with the widths of its C++
  fields: \<^verbatim>\<open>uint8_t\<close> is \<open>8 word\<close>, \<^verbatim>\<open>uint32_t\<close> is \<open>32 word\<close>,
  \<^verbatim>\<open>uint64_t\<close> is \<open>64 word\<close>. A \<^verbatim>\<open>double\<close> is kept as its IEEE-754 binary64
  bit pattern. Every \<^verbatim>\<open>throw\<close> of the source is an \<open>Inl\<close> result, and so is every
  step whose behaviour C++ leaves undefined (an \<^verbatim>\<open>int\<close> shift that overflows, an
  index outside a vector, a read of bytes that are not there).
\<close>

type_synonym u8 = "8 word"
type_synonym u16 = "16 word"
type_synonym u32 = "32 word"
type_synonym u64 = "64 word"
type_synonym double = "64 word"

datatype error = Invalid_argument | Logic_error | Undefined_behaviour

definition bind_err :: "error + 'a \<Rightarrow> ('a \<Rightarrow> error + 'b) \<Rightarrow> error + 'b" where
  "bind_err m f = (case m of Inl e \<Rightarrow> Inl e | Inr x \<Rightarrow> f x)"

text \<open>
  \<^verbatim>\<open>a << n\<close> on \<^verbatim>\<open>int\<close> operands, for a non-negative \<open>a\<close>. The operands of the
  shifts in the source (\<^verbatim>\<open>1 << lg_k\<close>, \<^verbatim>\<open>1 << col\<close>, \<^verbatim>\<open>0xff << new_offset\<close>)
  are promoted to the 32-bit \<^verbatim>\<open>int\<close>, whatever the type of the variable that
  receives the result. The result is defined when the count is below 32 and
  \<open>a * 2 ^ n\<close> fits the corresponding unsigned type; it is then that value read as a
  two's complement \<^verbatim>\<open>int\<close>, so \<^verbatim>\<open>1 << 31\<close> is \<^verbatim>\<open>INT_MIN\<close>.
\<close>

definition int_shl :: "int \<Rightarrow> nat \<Rightarrow> error + u32" where
  "int_shl a n =
     (if a < 0 \<or> 32 \<le> n \<or> 2 ^ 32 \<le> a * 2 ^ n then Inl Undefined_behaviour
      else Inr (word_of_int (a * 2 ^ n)))"

text \<open>\<^verbatim>\<open>x - 1\<close> on \<^verbatim>\<open>int\<close>: signed overflow at \<^verbatim>\<open>INT_MIN\<close> is undefined.\<close>

definition int_decr :: "u32 \<Rightarrow> error + u32" where
  "int_decr x = (if x = 0x80000000 then Inl Undefined_behaviour else Inr (x - 1))"

text \<open>The conversion of an \<^verbatim>\<open>int\<close> to \<^verbatim>\<open>uint64_t\<close> extends the sign.\<close>

definition int_to_u64 :: "u32 \<Rightarrow> u64" where
  "int_to_u64 x = scast x"

text \<open>\<^verbatim>\<open>const uint64_t k = 1 << lg_k;\<close>\<close>

definition k_of :: "u8 \<Rightarrow> error + u64" where
  "k_of lgk = bind_err (int_shl 1 (unat lgk)) (\<lambda>x. Inr (int_to_u64 x))"

text \<open>
  Modelled from the spec: \<^verbatim>\<open>count_leading_zeros_in_u64\<close> and
  \<^verbatim>\<open>count_trailing_zeros_in_u64\<close> live in a header that is not among the sources.
  The specification calls them the count of leading and of trailing zeros of a 64-bit
  word (\<open>clz64\<close>, \<open>ctz\<close>); both give 64 on the word 0.
\<close>

fun clz_below :: "nat \<Rightarrow> u64 \<Rightarrow> nat" where
  "clz_below 0 w = 0"
| "clz_below (Suc n) w = (if bit w n then 0 else Suc (clz_below n w))"

definition count_leading_zeros_in_u64 :: "u64 \<Rightarrow> nat" where
  "count_leading_zeros_in_u64 w = clz_below 64 w"

fun ctz_upto :: "nat \<Rightarrow> nat \<Rightarrow> u64 \<Rightarrow> nat" where
  "ctz_upto 0 i w = 0"
| "ctz_upto (Suc n) i w = (if bit w i then 0 else Suc (ctz_upto n (Suc i) w))"

definition count_trailing_zeros_in_u64 :: "u64 \<Rightarrow> nat" where
  "count_trailing_zeros_in_u64 w = ctz_upto 64 0 w"

section \<open>Flavor, window offset and preamble size\<close>

datatype flavor = EMPTY | SPARSE | HYBRID | PINNED | SLIDING

text \<open>\<^verbatim>\<open>determine_flavor(uint8_t lg_k, uint64_t c)\<close>\<close>

definition determine_flavor :: "u8 \<Rightarrow> u64 \<Rightarrow> error + flavor" where
  "determine_flavor lgk c =
     bind_err (k_of lgk) (\<lambda>k.
       let c2 = push_bit 1 c; c8 = push_bit 3 c; c32 = push_bit 5 c in
       if c = 0 then Inr EMPTY
       else if c32 < 3 * k then Inr SPARSE
       else if c2 < k then Inr HYBRID
       else if c8 < 27 * k then Inr PINNED
       else Inr SLIDING)"

text \<open>
  \<^verbatim>\<open>determine_correct_offset(uint8_t lg_k, uint64_t c)\<close>: the difference is taken on
  \<^verbatim>\<open>int64_t\<close>, the shift is arithmetic and the result is cut to \<^verbatim>\<open>uint8_t\<close>.
\<close>

definition determine_correct_offset :: "u8 \<Rightarrow> u64 \<Rightarrow> error + u8" where
  "determine_correct_offset lgk c =
     bind_err (k_of lgk) (\<lambda>k.
       let tmp = push_bit 3 c - 19 * k in
       if sint tmp < 0 then Inr 0
       else Inr (ucast (signed_drop_bit (unat lgk + 3) tmp)))"

text \<open>\<^verbatim>\<open>get_preamble_ints(uint32_t num_coupons, bool has_hip, bool has_table, bool has_window)\<close>\<close>

definition get_preamble_ints :: "u32 \<Rightarrow> bool \<Rightarrow> bool \<Rightarrow> bool \<Rightarrow> u8" where
  "get_preamble_ints c has_hip has_table has_window =
     (if c > 0 then
        (let p1 = 2 + 1;
             p2 = (if has_hip then p1 + 4 else p1);
             p3 = (if has_table then (if has_window then p2 + 1 + 1 else p2 + 1) else p2);
             p4 = (if has_window then p3 + 1 else p3)
         in p4)
      else 2)"

section \<open>From two hashes to a coupon\<close>

text \<open>\<^verbatim>\<open>row_col_from_two_hashes(uint64_t hash0, uint64_t hash1, uint8_t lg_k)\<close>\<close>

definition row_col_from_two_hashes :: "u64 \<Rightarrow> u64 \<Rightarrow> u8 \<Rightarrow> error + u32" where
  "row_col_from_two_hashes hash0 hash1 lgk =
     (if lgk > 26 then Inl Logic_error
      else bind_err (k_of lgk) (\<lambda>k.
        let col0 = (word_of_nat (count_leading_zeros_in_u64 hash1) :: u8);
            col = (if col0 > 63 then 63 else col0);
            row = (ucast (hash0 AND (k - 1)) :: u32);
            row_col = push_bit 6 row OR ucast col
        in bind_err (int_shl 1 6) (\<lambda>b6.
             Inr (if row_col = 0xFFFFFFFF then row_col XOR b6 else row_col))))"

text \<open>
  The derivation in the specification's words: \<open>col\<close> is \<open>min (clz64 h1) 63\<close>, \<open>row\<close>
  is \<open>h0 mod 2 ^ lgk\<close>, the code is \<open>(row << 6) | col\<close>, and the code
  \<open>0xFFFFFFFF\<close> has its bit 6 flipped.
\<close>

definition row_col_spec :: "nat \<Rightarrow> nat \<Rightarrow> nat \<Rightarrow> u32" where
  "row_col_spec h0 clz_h1 lgk =
     (let col = min clz_h1 63;
          row = h0 mod 2 ^ lgk;
          code = (push_bit 6 (word_of_nat row) OR word_of_nat col :: u32)
      in if code = 0xFFFFFFFF then code XOR push_bit 6 1 else code)"

section \<open>The sketch\<close>

text \<open>
  Modelled from the spec: \<^verbatim>\<open>u32_table\<close> is declared in a header that is not among
  the sources. The specification describes it as a set of 32-bit codes:
  \<open>maybe_insert\<close> returns true iff the code was not present and then stores it,
  \<open>maybe_delete\<close> returns true iff the code was present and then removes it, \<open>clear\<close>
  empties it. The table is kept as the list of the codes in its occupied slots (a slot
  that holds the sentinel \<open>0xFFFFFFFF\<close> is empty and the loops of the sketch skip it).
\<close>

type_synonym u32_table = "u32 list"

definition u32_table_new :: u32_table where
  "u32_table_new = []"

definition maybe_insert :: "u32_table \<Rightarrow> u32 \<Rightarrow> bool \<times> u32_table" where
  "maybe_insert t item = (if item \<in> set t then (False, t) else (True, t @ [item]))"

definition maybe_delete :: "u32_table \<Rightarrow> u32 \<Rightarrow> bool \<times> u32_table" where
  "maybe_delete t item = (if item \<in> set t then (True, removeAll item t) else (False, t))"

definition get_slots :: "u32_table \<Rightarrow> u32 list" where
  "get_slots t = t"

record cpc_sketch =
  lg_k :: u8
  seed :: u64
  was_merged :: bool
  num_coupons :: u32
  surprising_value_table :: u32_table
  sliding_window :: "u8 list"
  window_offset :: u8
  first_interesting_column :: u8
  kxp :: double
  hip_est_accum :: double

text \<open>
  The payload of the compressor, as \<^verbatim>\<open>compressed_state\<close> holds it: two buffers of
  32-bit words, each possibly absent (\<^verbatim>\<open>nullptr\<close>), and three counters.
\<close>

record compressed_state =
  table_data_ptr :: "u32 list option"
  table_data_words :: u32
  table_num_entries :: u32
  window_data_ptr :: "u32 list option"
  window_data_words :: u32

text \<open>
  What the sketch takes from outside this file: the 128-bit hash, the arithmetic of
  \<^verbatim>\<open>double\<close>, the two lookup tables, the seed digest, the constants of the
  envelope, and the compressor with its inverse. They are parameters of the model.
\<close>

record env =
  MurmurHash3_x64_128 :: "u8 list \<Rightarrow> u64 \<Rightarrow> u64 \<times> u64"
  double_add :: "double \<Rightarrow> double \<Rightarrow> double"
  double_sub :: "double \<Rightarrow> double \<Rightarrow> double"
  double_mul :: "double \<Rightarrow> double \<Rightarrow> double"
  double_div :: "double \<Rightarrow> double \<Rightarrow> double"
  INVERSE_POWERS_OF_2 :: "nat \<Rightarrow> double"
  KXP_BYTE_TABLE :: "u8 \<Rightarrow> double"
  compute_seed_hash :: "u64 \<Rightarrow> u16"
  SERIAL_VERSION :: u8
  FAMILY :: u8
  compress :: "cpc_sketch \<Rightarrow> compressed_state"
  uncompress :: "compressed_state \<Rightarrow> u8 \<Rightarrow> u32 \<Rightarrow> error + (u32_table \<times> u8 list)"

subsection \<open>Conversions to \<^verbatim>\<open>double\<close>\<close>

fun bit_length :: "nat \<Rightarrow> nat" where
  "bit_length n = (if n = 0 then 0 else Suc (bit_length (n div 2)))"

declare bit_length.simps [simp del]

text \<open>
  The binary64 pattern of a natural number below \<open>2 ^ 64\<close>, rounded to the nearest
  even mantissa when it has more than 53 significant bits.
\<close>

definition double_of_nat :: "nat \<Rightarrow> double" where
  "double_of_nat n =
     (if n = 0 then 0
      else let l = bit_length n in
        if l \<le> 53 then word_of_nat ((1022 + l) * 2 ^ 52 + (n * 2 ^ (53 - l) - 2 ^ 52))
        else let sh = l - 53; q = n div 2 ^ sh; r = n mod 2 ^ sh; h = 2 ^ (sh - 1);
                 q' = (if r > h \<or> (r = h \<and> odd q) then q + 1 else q)
             in word_of_nat ((1022 + l) * 2 ^ 52 + (q' - 2 ^ 52)))"

text \<open>\<^verbatim>\<open>static_cast<double>(k)\<close> of a \<^verbatim>\<open>uint64_t\<close>, and the conversion of an \<^verbatim>\<open>int\<close>.\<close>

definition u64_to_double :: "u64 \<Rightarrow> double" where
  "u64_to_double x = double_of_nat (unat x)"

definition int_to_double :: "u32 \<Rightarrow> double" where
  "int_to_double x =
     (if sint x < 0 then push_bit 63 1 OR double_of_nat (nat (- sint x))
      else double_of_nat (nat (sint x)))"

subsection \<open>Construction\<close>

text \<open>
  \<^verbatim>\<open>cpc_sketch_alloc(uint8_t lg_k, uint64_t seed)\<close>: the member initialisers run
  before the range check of the body, \<^verbatim>\<open>kxp(1 << lg_k)\<close> among them.
  \<^verbatim>\<open>CPC_MIN_LG_K\<close> and \<^verbatim>\<open>CPC_MAX_LG_K\<close> are 4 and 26.
\<close>

definition cpc_sketch_new :: "u8 \<Rightarrow> u64 \<Rightarrow> error + cpc_sketch" where
  "cpc_sketch_new lgk sd =
     bind_err (int_shl 1 (unat lgk)) (\<lambda>k.
       if lgk < 4 \<or> lgk > 26 then Inl Invalid_argument
       else Inr \<lparr> lg_k = lgk, seed = sd, was_merged = False, num_coupons = 0,
                  surprising_value_table = u32_table_new, sliding_window = [],
                  window_offset = 0, first_interesting_column = 0,
                  kxp = int_to_double k, hip_est_accum = 0 \<rparr>)"

text \<open>The private constructor used by \<open>deserialize\<close>: \<open>window_offset\<close> is derived.\<close>

definition cpc_sketch_of_parts ::
  "u8 \<Rightarrow> u32 \<Rightarrow> u8 \<Rightarrow> u32_table \<Rightarrow> u8 list \<Rightarrow> bool \<Rightarrow> double \<Rightarrow> double \<Rightarrow> u64
     \<Rightarrow> error + cpc_sketch" where
  "cpc_sketch_of_parts lgk c fic table window has_hip kxp0 hip0 sd =
     bind_err (determine_correct_offset lgk (ucast c)) (\<lambda>off.
       Inr \<lparr> lg_k = lgk, seed = sd, was_merged = \<not> has_hip, num_coupons = c,
              surprising_value_table = table, sliding_window = window,
              window_offset = off, first_interesting_column = fic,
              kxp = kxp0, hip_est_accum = hip0 \<rparr>)"

definition is_empty :: "cpc_sketch \<Rightarrow> bool" where
  "is_empty s = (num_coupons s = 0)"

subsection \<open>The bit matrix\<close>

text \<open>One slot of the table flips one bit: \<^verbatim>\<open>matrix[row] ^= 1 << col;\<close>\<close>

definition flip_slot :: "u32 \<Rightarrow> u64 list \<Rightarrow> error + u64 list" where
  "flip_slot row_col matrix =
     (if row_col \<noteq> 0xFFFFFFFF then
        (let col = (ucast (row_col AND 63) :: u8);
             row = unat (drop_bit 6 row_col)
         in bind_err (int_shl 1 (unat col)) (\<lambda>b.
              if row < length matrix
              then Inr (matrix[row := (matrix ! row) XOR int_to_u64 b])
              else Inl Undefined_behaviour))
      else Inr matrix)"

fun flip_slots :: "u32 list \<Rightarrow> u64 list \<Rightarrow> error + u64 list" where
  "flip_slots [] matrix = Inr matrix"
| "flip_slots (row_col # slots) matrix =
     bind_err (flip_slot row_col matrix) (flip_slots slots)"

text \<open>\<^verbatim>\<open>matrix[i] |= static_cast<uint64_t>(sliding_window[i]) << window_offset;\<close> for \<open>i < k\<close>\<close>

definition or_window :: "u8 list \<Rightarrow> nat \<Rightarrow> u64 list \<Rightarrow> error + u64 list" where
  "or_window window off matrix =
     (if length window < length matrix then Inl Undefined_behaviour
      else Inr (map (\<lambda>(m, w). m OR push_bit off (ucast w)) (zip matrix window)))"

definition build_bit_matrix :: "cpc_sketch \<Rightarrow> error + u64 list" where
  "build_bit_matrix s =
     bind_err (k_of (lg_k s)) (\<lambda>k.
       if window_offset s > 56 then Inl Logic_error
       else bind_err (int_shl 1 (unat (window_offset s))) (\<lambda>one.
            bind_err (int_decr one) (\<lambda>d.
              let default_row = int_to_u64 d;
                  matrix = replicate (unat k) default_row
              in if num_coupons s = 0 then Inr matrix
                 else bind_err
                        (if length (sliding_window s) > 0
                         then or_window (sliding_window s) (unat (window_offset s)) matrix
                         else Inr matrix)
                        (flip_slots (get_slots (surprising_value_table s))))))"

text \<open>
  Modelled from the spec: \<^verbatim>\<open>count_bits_set_in_matrix\<close> is not among the sources; the
  specification calls it the popcount of the matrix.
\<close>

definition popcount64 :: "u64 \<Rightarrow> nat" where
  "popcount64 w = length (filter (bit w) [0..<64])"

definition count_bits_set_in_matrix :: "u64 list \<Rightarrow> nat" where
  "count_bits_set_in_matrix matrix = sum_list (map popcount64 matrix)"

definition validate :: "cpc_sketch \<Rightarrow> error + bool" where
  "validate s =
     bind_err (build_bit_matrix s) (\<lambda>matrix.
       Inr (count_bits_set_in_matrix matrix = unat (num_coupons s)))"

subsection \<open>HIP and KXP\<close>

definition update_hip :: "env \<Rightarrow> cpc_sketch \<Rightarrow> u32 \<Rightarrow> error + cpc_sketch" where
  "update_hip e s row_col =
     bind_err (k_of (lg_k s)) (\<lambda>k.
       let col = (ucast (row_col AND 63) :: u8);
           one_over_p = double_div e (u64_to_double k) (kxp s)
       in Inr (s\<lparr> hip_est_accum := double_add e (hip_est_accum s) one_over_p,
                  kxp := double_sub e (kxp s) (INVERSE_POWERS_OF_2 e (unat col + 1)) \<rparr>))"

text \<open>The eight sums of \<open>refresh_kxp\<close>, one per byte position, over the rows in order.\<close>

definition byte_of_word :: "u64 \<Rightarrow> nat \<Rightarrow> u8" where
  "byte_of_word word j = ucast (drop_bit (8 * j) word AND 0xff)"

fun byte_sums_loop :: "env \<Rightarrow> u64 list \<Rightarrow> double list \<Rightarrow> double list" where
  "byte_sums_loop e [] byte_sums = byte_sums"
| "byte_sums_loop e (word # rest) byte_sums =
     byte_sums_loop e rest
       (map (\<lambda>j. double_add e (byte_sums ! j) (KXP_BYTE_TABLE e (byte_of_word word j))) [0..<8])"

definition refresh_kxp :: "env \<Rightarrow> cpc_sketch \<Rightarrow> u64 list \<Rightarrow> error + cpc_sketch" where
  "refresh_kxp e s bit_matrix =
     bind_err (k_of (lg_k s)) (\<lambda>k.
       if length bit_matrix < unat k then Inl Undefined_behaviour
       else let byte_sums = byte_sums_loop e (take (unat k) bit_matrix) (replicate 8 0);
                total = foldl (\<lambda>t j. double_add e t
                                 (double_mul e (INVERSE_POWERS_OF_2 e (8 * j)) (byte_sums ! j)))
                          0 (rev [0..<8])
            in Inr (s\<lparr> kxp := total \<rparr>))"

subsection \<open>Promotion and the window shift\<close>

text \<open>
  The loop of \<open>promote_sparse_to_windowed\<close> over the old slots: a code with
  \<open>col < 8\<close> sets a bit of its row's window byte, any other goes to the new table.
\<close>

fun promote_slots ::
  "u32 list \<Rightarrow> u8 list \<Rightarrow> u32_table \<Rightarrow> error + (u8 list \<times> u32_table)" where
  "promote_slots [] window new_table = Inr (window, new_table)"
| "promote_slots (row_col # old_slots) window new_table =
     (if row_col \<noteq> 0xFFFFFFFF then
        (let col = (ucast (row_col AND 63) :: u8) in
         if col < 8 then
           (let row = unat (drop_bit 6 row_col) in
            bind_err (int_shl 1 (unat col)) (\<lambda>b.
              if row < length window
              then promote_slots old_slots
                     (window[row := (window ! row) OR ucast b]) new_table
              else Inl Undefined_behaviour))
         else
           (case maybe_insert new_table row_col of
              (is_novel, new_table') \<Rightarrow>
                if \<not> is_novel then Inl Logic_error
                else promote_slots old_slots window new_table'))
      else promote_slots old_slots window new_table)"

text \<open>\<^verbatim>\<open>sliding_window.resize(k, 0)\<close>\<close>

definition resize_window :: "u8 list \<Rightarrow> nat \<Rightarrow> u8 list" where
  "resize_window window k = take k window @ replicate (k - length window) 0"

text \<open>\<^verbatim>\<open>num_coupons << 5\<close> and \<^verbatim>\<open>num_coupons << 3\<close> shift a \<^verbatim>\<open>uint32_t\<close>: the
  result wraps at 32 bits before it is widened to \<^verbatim>\<open>uint64_t\<close>.\<close>

definition shl_u32_to_u64 :: "u32 \<Rightarrow> nat \<Rightarrow> u64" where
  "shl_u32_to_u64 c n = ucast (push_bit n c)"

definition promote_sparse_to_windowed :: "cpc_sketch \<Rightarrow> error + cpc_sketch" where
  "promote_sparse_to_windowed s =
     bind_err (k_of (lg_k s)) (\<lambda>k.
       let c32 = shl_u32_to_u64 (num_coupons s) 5 in
       if \<not> (c32 = 3 * k \<or> (lg_k s = 4 \<and> c32 > 3 * k)) then Inl Logic_error
       else let window = resize_window (sliding_window s) (unat k);
                new_table = u32_table_new;
                old_slots = get_slots (surprising_value_table s)
            in if window_offset s \<noteq> 0 then Inl Logic_error
               else bind_err (promote_slots old_slots window new_table) (\<lambda>(window', new_table').
                      Inr (s\<lparr> sliding_window := window', surprising_value_table := new_table' \<rparr>)))"

text \<open>
  The inner loop of \<open>move_window\<close>: while the pattern is not zero, take its lowest set
  bit \<open>col\<close>, erase it with \<^verbatim>\<open>pattern ^ (1 << col)\<close> and insert \<open>(i << 6) | col\<close>.
  The shift is an \<^verbatim>\<open>int\<close> shift.
\<close>

function insert_surprises :: "nat \<Rightarrow> u64 \<Rightarrow> u32_table \<Rightarrow> error + u32_table" where
  "insert_surprises i pattern table =
     (if pattern = 0 then Inr table
      else let col = count_trailing_zeros_in_u64 pattern in
        case int_shl 1 col of
          Inl err \<Rightarrow> Inl err
        | Inr b \<Rightarrow>
            (let pattern' = pattern XOR int_to_u64 b;
                 row_col = (ucast (push_bit 6 (word_of_nat i :: u64) OR word_of_nat col) :: u32)
             in case maybe_insert table row_col of
                  (is_novel, table') \<Rightarrow>
                    if \<not> is_novel then Inl Logic_error
                    else insert_surprises i pattern' table'))"
  by pat_completeness auto

text \<open>The loop terminates: each pass erases the lowest set bit of the low half of the
  pattern, and a lowest set bit in the high half stops it with an undefined shift.\<close>

lemma ctz_upto_bit: "ctz_upto n i w < n \<Longrightarrow> bit w (i + ctz_upto n i w)"
proof (induction n arbitrary: i)
  case 0
  then show ?case by simp
next
  case (Suc n)
  show ?case
  proof (cases "bit w i")
    case True
    then show ?thesis by simp
  next
    case False
    with Suc.prems have "ctz_upto n (Suc i) w < n" by simp
    then have "bit w (Suc i + ctz_upto n (Suc i) w)" by (rule Suc.IH)
    with False show ?thesis by simp
  qed
qed

lemma ucast_xor_int_to_u64: "(ucast ((p :: u64) XOR int_to_u64 b) :: u32) = ucast p XOR b"
  by (rule bit_word_eqI) (auto simp: bit_simps int_to_u64_def)

lemma unat_2p_32: "c < 32 \<Longrightarrow> unat (2 ^ c :: u32) = 2 ^ c"
proof -
  assume c: "c < 32"
  have "(2 ^ c :: u32) = word_of_nat (2 ^ c)" by simp
  moreover have "(2::nat) ^ c < 2 ^ 32" using c by (intro power_strict_increasing) simp_all
  ultimately show ?thesis by (simp only: unat_of_nat) simp
qed

lemma xor_bit_less_nat:
  fixes n :: nat
  assumes "bit n c"
  shows "n XOR 2 ^ c < n"
proof -
  have "(n XOR 2 ^ c) AND 2 ^ c = 0"
    using assms by - (rule bit_eqI, auto simp: bit_simps)
  then have "(n XOR 2 ^ c) + 2 ^ c = (n XOR 2 ^ c) XOR 2 ^ c"
    by (rule disjunctive_add_eq_xor)
  also have "\<dots> = n" by (simp add: xor.assoc)
  finally have "(n XOR 2 ^ c) + 2 ^ c = n" .
  moreover have "(0::nat) < 2 ^ c" by simp
  ultimately show ?thesis by linarith
qed

lemma xor_bit_less:
  fixes w :: u32
  assumes "bit w c"
  shows "unat (w XOR 2 ^ c) < unat w"
proof -
  have c: "c < 32" using assms by (auto dest: bit_imp_le_length)
  have "bit (unat w) c" using assms by (simp add: bit_unsigned_iff)
  then have "unat w XOR 2 ^ c < unat w" by (rule xor_bit_less_nat)
  moreover have "unat (w XOR 2 ^ c) = unat w XOR 2 ^ c"
    using c by (simp add: unsigned_xor_eq unat_2p_32)
  ultimately show ?thesis by simp
qed

termination insert_surprises
proof (relation "measure (\<lambda>(i, p, t).
         if 32 \<le> count_trailing_zeros_in_u64 p then 0 else 1 + unat (ucast p :: u32))")
  show "wf (measure (\<lambda>(i, p, t).
         if 32 \<le> count_trailing_zeros_in_u64 p then 0 else 1 + unat (ucast p :: u32)))"
    by simp
next
  fix i :: nat and pattern :: u64 and table :: u32_table and x b x'
    and xb :: "bool \<times> u32_table" and xc y
  assume p: "pattern \<noteq> 0" and x: "x = count_trailing_zeros_in_u64 pattern"
    and b: "int_shl 1 x = Inr b" and x': "x' = pattern XOR int_to_u64 b"
  have c32: "x < 32" and bv: "b = 2 ^ x"
    using b by (auto simp: int_shl_def split: if_splits)
  have "ctz_upto 64 0 pattern < 64"
    using c32 x by (simp add: count_trailing_zeros_in_u64_def)
  from ctz_upto_bit [OF this] have "bit pattern x"
    by (simp add: x count_trailing_zeros_in_u64_def)
  then have "bit (ucast pattern :: u32) x" using c32 by (simp add: bit_simps)
  then have "unat ((ucast pattern :: u32) XOR 2 ^ x) < unat (ucast pattern :: u32)"
    by (rule xor_bit_less)
  then have "unat (ucast x' :: u32) < unat (ucast pattern :: u32)"
    by (simp add: x' ucast_xor_int_to_u64 bv)
  then show "((i, x', y), i, pattern, table)
       \<in> measure (\<lambda>(i, p, t).
            if 32 \<le> count_trailing_zeros_in_u64 p then 0 else 1 + unat (ucast p :: u32))"
    using c32 x by simp
qed

declare insert_surprises.simps [simp del]

text \<open>The loop of \<open>move_window\<close> over the rows \<open>i < k\<close> of the bit matrix.\<close>

fun move_window_rows ::
  "nat \<Rightarrow> u64 list \<Rightarrow> nat \<Rightarrow> u64 \<Rightarrow> u64 \<Rightarrow> u8 list \<Rightarrow> u32_table \<Rightarrow> u64
     \<Rightarrow> error + (u8 list \<times> u32_table \<times> u64)" where
  "move_window_rows i [] new_offset mask_clear mask_flip window table all_surprises_ored =
     Inr (window, table, all_surprises_ored)"
| "move_window_rows i (row # rest) new_offset mask_clear mask_flip window table all_surprises_ored =
     (if i < length window then
        (let window' = window[i := ucast (drop_bit new_offset row AND 0xff)];
             pattern = (row AND mask_clear) XOR mask_flip;
             all' = all_surprises_ored OR pattern
         in bind_err (insert_surprises i pattern table) (\<lambda>table'.
              move_window_rows (Suc i) rest new_offset mask_clear mask_flip window' table' all'))
      else Inl Undefined_behaviour)"

text \<open>The body of \<open>move_window\<close> once its three checks have passed.\<close>

definition shift_window :: "env \<Rightarrow> cpc_sketch \<Rightarrow> u8 \<Rightarrow> error + cpc_sketch" where
  "shift_window e s new_offset =
     bind_err (k_of (lg_k s)) (\<lambda>k.
     bind_err (build_bit_matrix s) (\<lambda>bit_matrix.
     bind_err (if new_offset AND 7 = 0 then refresh_kxp e s bit_matrix else Inr s) (\<lambda>s1.
     bind_err (int_shl 0xff (unat new_offset)) (\<lambda>ff.
     bind_err (int_shl 1 (unat new_offset)) (\<lambda>one.
     bind_err (int_decr one) (\<lambda>d.
       let mask_for_clearing_window = int_to_u64 ff XOR (- 1);
           mask_for_flipping_early_zone = int_to_u64 d
       in bind_err (move_window_rows 0 (take (unat k) bit_matrix) (unat new_offset)
                      mask_for_clearing_window mask_for_flipping_early_zone
                      (sliding_window s1) u32_table_new 0)
            (\<lambda>(window', table', all_surprises_ored).
              let fic0 = (word_of_nat (count_trailing_zeros_in_u64 all_surprises_ored) :: u8);
                  fic = (if fic0 > new_offset then new_offset else fic0)
              in Inr (s1\<lparr> sliding_window := window',
                           surprising_value_table := table',
                           window_offset := new_offset,
                           first_interesting_column := fic \<rparr>))))))))"

definition move_window :: "env \<Rightarrow> cpc_sketch \<Rightarrow> error + cpc_sketch" where
  "move_window e s =
     (let new_offset = window_offset s + 1 in
      if new_offset > 56 then Inl Logic_error
      else bind_err (determine_correct_offset (lg_k s) (ucast (num_coupons s))) (\<lambda>correct.
        if new_offset \<noteq> correct then Inl Logic_error
        else if length (sliding_window s) = 0 then Inl Logic_error
        else shift_window e s new_offset))"

subsection \<open>Updates by coupon\<close>

definition update_sparse :: "env \<Rightarrow> cpc_sketch \<Rightarrow> u32 \<Rightarrow> error + cpc_sketch" where
  "update_sparse e s row_col =
     bind_err (k_of (lg_k s)) (\<lambda>k.
       let c32pre = shl_u32_to_u64 (num_coupons s) 5 in
       if c32pre \<ge> 3 * k then Inl Logic_error
       else case maybe_insert (surprising_value_table s) row_col of
         (is_novel, table') \<Rightarrow>
           let s1 = s\<lparr> surprising_value_table := table' \<rparr> in
           if is_novel then
             (let s2 = s1\<lparr> num_coupons := num_coupons s1 + 1 \<rparr> in
              bind_err (update_hip e s2 row_col) (\<lambda>s3.
                let c32post = shl_u32_to_u64 (num_coupons s3) 5 in
                if c32post \<ge> 3 * k then promote_sparse_to_windowed s3 else Inr s3))
           else Inr s1)"

text \<open>The three zones of \<open>update_windowed\<close>: before, inside and after the window.\<close>

definition windowed_step :: "cpc_sketch \<Rightarrow> u32 \<Rightarrow> error + (bool \<times> cpc_sketch)" where
  "windowed_step s row_col =
     (let col = (ucast (row_col AND 63) :: u8) in
      if col < window_offset s then
        (case maybe_delete (surprising_value_table s) row_col of
           (is_novel, table') \<Rightarrow> Inr (is_novel, s\<lparr> surprising_value_table := table' \<rparr>))
      else if unat col < unat (window_offset s) + 8 then
        (if col < window_offset s then Inl Logic_error
         else let row = unat (drop_bit 6 row_col) in
           if row < length (sliding_window s) then
             (let old_bits = sliding_window s ! row in
              bind_err (int_shl 1 (unat col - unat (window_offset s))) (\<lambda>b.
                let new_bits = old_bits OR ucast b in
                if new_bits \<noteq> old_bits
                then Inr (True, s\<lparr> sliding_window := (sliding_window s)[row := new_bits] \<rparr>)
                else Inr (False, s)))
           else Inl Undefined_behaviour)
      else
        (if unat col < unat (window_offset s) + 8 then Inl Logic_error
         else case maybe_insert (surprising_value_table s) row_col of
           (is_novel, table') \<Rightarrow> Inr (is_novel, s\<lparr> surprising_value_table := table' \<rparr>)))"

text \<open>The checks of \<open>update_windowed\<close> that follow its call of \<open>move_window\<close>.\<close>

definition check_after_move :: "cpc_sketch \<Rightarrow> u64 \<Rightarrow> u64 \<Rightarrow> error + cpc_sketch" where
  "check_after_move s4 c8post k =
     (if window_offset s4 < 1 \<or> window_offset s4 > 56 then Inl Logic_error
      else bind_err (int_shl (uint (window_offset s4)) 3) (\<lambda>w8'.
        let w8post = int_to_u64 w8' in
        if c8post \<ge> (27 + w8post) * k then Inl Logic_error else Inr s4))"

text \<open>The block of \<open>update_windowed\<close> that runs when the coupon is new.\<close>

definition windowed_novel ::
  "env \<Rightarrow> cpc_sketch \<Rightarrow> u32 \<Rightarrow> u64 \<Rightarrow> u64 \<Rightarrow> error + cpc_sketch" where
  "windowed_novel e s1 row_col k w8pre =
     (let s2 = s1\<lparr> num_coupons := num_coupons s1 + 1 \<rparr> in
      bind_err (update_hip e s2 row_col) (\<lambda>s3.
        let c8post = shl_u32_to_u64 (num_coupons s3) 3 in
        if c8post \<ge> (27 + w8pre) * k then
          bind_err (move_window e s3) (\<lambda>s4. check_after_move s4 c8post k)
        else Inr s3))"

definition update_windowed :: "env \<Rightarrow> cpc_sketch \<Rightarrow> u32 \<Rightarrow> error + cpc_sketch" where
  "update_windowed e s row_col =
     (if window_offset s > 56 then Inl Logic_error
      else bind_err (k_of (lg_k s)) (\<lambda>k.
        let c32pre = shl_u32_to_u64 (num_coupons s) 5 in
        if c32pre < 3 * k then Inl Logic_error
        else let c8pre = shl_u32_to_u64 (num_coupons s) 3 in
          bind_err (int_shl (uint (window_offset s)) 3) (\<lambda>w8.
            let w8pre = int_to_u64 w8 in
            if c8pre \<ge> (27 + w8pre) * k then Inl Logic_error
            else bind_err (windowed_step s row_col) (\<lambda>(is_novel, s1).
              if is_novel then windowed_novel e s1 row_col k w8pre
              else Inr s1))))"

definition row_col_update :: "env \<Rightarrow> cpc_sketch \<Rightarrow> u32 \<Rightarrow> error + cpc_sketch" where
  "row_col_update e s row_col =
     (let col = (ucast (row_col AND 63) :: u8) in
      if col < first_interesting_column s then Inr s
      else if length (sliding_window s) = 0 then update_sparse e s row_col
      else update_windowed e s row_col)"

subsection \<open>Updates by value\<close>

text \<open>
  \<^verbatim>\<open>update(const void* value, int size)\<close>: the buffer is the list of its bytes. The
  fixed-width values reach it as \<^verbatim>\<open>&value, sizeof(value)\<close>, the bytes of the value
  in memory, least significant first.
\<close>

definition update_bytes :: "env \<Rightarrow> cpc_sketch \<Rightarrow> u8 list \<Rightarrow> error + cpc_sketch" where
  "update_bytes e s buf =
     (case MurmurHash3_x64_128 e buf (seed s) of
        (h1, h2) \<Rightarrow> bind_err (row_col_from_two_hashes h1 h2 (lg_k s)) (row_col_update e s))"

definition update_string :: "env \<Rightarrow> cpc_sketch \<Rightarrow> u8 list \<Rightarrow> error + cpc_sketch" where
  "update_string e s str = (if str = [] then Inr s else update_bytes e s str)"

definition bytes_of_u64 :: "u64 \<Rightarrow> u8 list" where
  "bytes_of_u64 w = map (\<lambda>i. ucast (drop_bit (8 * i) w)) [0..<8]"


definition update_int64 :: "env \<Rightarrow> cpc_sketch \<Rightarrow> u64 \<Rightarrow> error + cpc_sketch" where
  "update_int64 e s v = update_bytes e s (bytes_of_u64 v)"







text \<open>
  \<^verbatim>\<open>update(double value)\<close> on the bit pattern of the value: \<^verbatim>\<open>value == 0.0\<close> holds
  for both zeros, \<^verbatim>\<open>std::isnan\<close> for the patterns with all exponent bits set and a
  mantissa that is not zero.
\<close>

definition double_is_zero :: "double \<Rightarrow> bool" where
  "double_is_zero v = (v AND 0x7FFFFFFFFFFFFFFF = 0)"

definition double_isnan :: "double \<Rightarrow> bool" where
  "double_isnan v = (v AND 0x7FFFFFFFFFFFFFFF > 0x7FF0000000000000)"

definition update_double :: "env \<Rightarrow> cpc_sketch \<Rightarrow> double \<Rightarrow> error + cpc_sketch" where
  "update_double e s v =
     (let ldu = (if double_is_zero v then 0
                 else if double_isnan v then 0x7ff8000000000000
                 else v)
      in update_bytes e s (bytes_of_u64 ldu))"

text \<open>
  \<^verbatim>\<open>static_cast<double>(float)\<close> on bit patterns: the conversion is exact; a
  subnormal \<^verbatim>\<open>float\<close> becomes a normal \<^verbatim>\<open>double\<close>, a NaN stays a NaN.
\<close>

definition float_to_double :: "u32 \<Rightarrow> double" where
  "float_to_double x =
     (let sign = (push_bit 63 (ucast (drop_bit 31 x)) :: u64);
          ex = unat (drop_bit 23 x AND 0xFF);
          man = unat (x AND 0x7FFFFF)
      in if ex = 0 then
           (if man = 0 then sign
            else let l = bit_length man in
              sign OR word_of_nat ((873 + l) * 2 ^ 52 + (man * 2 ^ (53 - l) - 2 ^ 52)))
         else if ex = 255 then
           (if man = 0 then sign OR 0x7FF0000000000000
            else sign OR 0x7FF8000000000000 OR word_of_nat (man * 2 ^ 29))
         else sign OR word_of_nat ((ex + 896) * 2 ^ 52 + man * 2 ^ 29))"

definition update_float :: "env \<Rightarrow> cpc_sketch \<Rightarrow> u32 \<Rightarrow> error + cpc_sketch" where
  "update_float e s x = update_double e s (float_to_double x)"

section \<open>Serialization\<close>

text \<open>
  Modelled from the spec: the positions of the flag bits are declared with the class,
  outside the sources. The wire format of the specification gives bit 0 to
  \<open>IS_COMPRESSED\<close>, bit 1 to \<open>HAS_HIP\<close>, bit 2 to \<open>HAS_TABLE\<close> and bit 3 to
  \<open>HAS_WINDOW\<close>.
\<close>

definition IS_COMPRESSED :: nat where "IS_COMPRESSED = 0"
definition HAS_HIP :: nat where "HAS_HIP = 1"
definition HAS_TABLE :: nat where "HAS_TABLE = 2"
definition HAS_WINDOW :: nat where "HAS_WINDOW = 3"

text \<open>Values are written and read as their bytes in memory, least significant first.\<close>

definition bytes_of_u16 :: "u16 \<Rightarrow> u8 list" where
  "bytes_of_u16 w = map (\<lambda>i. ucast (drop_bit (8 * i) w)) [0..<2]"

definition bytes_of_u32 :: "u32 \<Rightarrow> u8 list" where
  "bytes_of_u32 w = map (\<lambda>i. ucast (drop_bit (8 * i) w)) [0..<4]"

definition u16_of_bytes :: "u8 list \<Rightarrow> u16" where
  "u16_of_bytes bs = foldr (\<lambda>b acc. ucast b OR push_bit 8 acc) bs 0"

definition u32_of_bytes :: "u8 list \<Rightarrow> u32" where
  "u32_of_bytes bs = foldr (\<lambda>b acc. ucast b OR push_bit 8 acc) bs 0"

definition u64_of_bytes :: "u8 list \<Rightarrow> u64" where
  "u64_of_bytes bs = foldr (\<lambda>b acc. ucast b OR push_bit 8 acc) bs 0"

definition write_hip :: "cpc_sketch \<Rightarrow> u8 list" where
  "write_hip s = bytes_of_u64 (kxp s) @ bytes_of_u64 (hip_est_accum s)"

text \<open>\<^verbatim>\<open>os.write((char*)ptr.get(), words * sizeof(uint32_t))\<close>: \<open>words\<close> words of the
  buffer; a buffer that is shorter is read past its end.\<close>

definition write_words :: "u32 list option \<Rightarrow> u32 \<Rightarrow> error + u8 list" where
  "write_words ptr n =
     (case ptr of
        None \<Rightarrow> (if n = 0 then Inr [] else Inl Undefined_behaviour)
      | Some ws \<Rightarrow>
          if length ws < unat n then Inl Undefined_behaviour
          else Inr (concat (map bytes_of_u32 (take (unat n) ws))))"

definition flags_byte_of :: "bool \<Rightarrow> bool \<Rightarrow> bool \<Rightarrow> u8" where
  "flags_byte_of has_hip has_table has_window =
     push_bit IS_COMPRESSED 1
     OR (if has_hip then push_bit HAS_HIP 1 else 0)
     OR (if has_table then push_bit HAS_TABLE 1 else 0)
     OR (if has_window then push_bit HAS_WINDOW 1 else 0)"

text \<open>\<^verbatim>\<open>serialize(std::ostream& os)\<close>: the result is the sequence of bytes written.\<close>

definition serialize :: "env \<Rightarrow> cpc_sketch \<Rightarrow> error + u8 list" where
  "serialize e s =
     (let compressed = compress e s;
          has_hip = \<not> was_merged s;
          has_table = (table_data_ptr compressed \<noteq> None);
          has_window = (window_data_ptr compressed \<noteq> None);
          preamble_ints = get_preamble_ints (num_coupons s) has_hip has_table has_window;
          header = [preamble_ints, SERIAL_VERSION e, FAMILY e, lg_k s,
                    first_interesting_column s, flags_byte_of has_hip has_table has_window]
                   @ bytes_of_u16 (compute_seed_hash e (seed s))
      in if \<not> is_empty s then
           bind_err (if has_window
                     then write_words (window_data_ptr compressed) (window_data_words compressed)
                     else Inr []) (\<lambda>window_bytes.
           bind_err (if has_table
                     then write_words (table_data_ptr compressed) (table_data_words compressed)
                     else Inr []) (\<lambda>table_bytes.
             Inr (header
                  @ bytes_of_u32 (num_coupons s)
                  @ (if has_table \<and> has_window
                     then bytes_of_u32 (table_num_entries compressed)
                          @ (if has_hip then write_hip s else [])
                     else [])
                  @ (if has_table then bytes_of_u32 (table_data_words compressed) else [])
                  @ (if has_window then bytes_of_u32 (window_data_words compressed) else [])
                  @ (if has_hip \<and> \<not> (has_table \<and> has_window) then write_hip s else [])
                  @ window_bytes
                  @ table_bytes)))
         else Inr header)"

text \<open>
  Reading from the input. \<open>deserialize(const void*, size_t, uint64_t)\<close> copies from
  the buffer before it looks at the size, so a field that is not there is read past
  the end of the buffer: the model stops with \<open>Undefined_behaviour\<close>.
  \<open>deserialize(std::istream&, uint64_t)\<close> never tests the stream. A read that meets
  the end of the input stores the bytes it got, leaves the rest of the variable as it
  was and fails the stream, and no later read stores anything. The variables of the
  header and the two data buffers are not initialised, so a short read of one of them
  is \<open>Undefined_behaviour\<close> as well; the counters and the two \<^verbatim>\<open>double\<close> values
  start at zero, so a short read leaves them with the bytes that were there, extended
  by zeros, and with nothing left to read.
\<close>

definition read_bytes :: "nat \<Rightarrow> u8 list \<Rightarrow> error + (u8 list \<times> u8 list)" where
  "read_bytes n inp =
     (if length inp < n then Inl Undefined_behaviour else Inr (take n inp, drop n inp))"

definition read_u8 :: "u8 list \<Rightarrow> error + (u8 \<times> u8 list)" where
  "read_u8 inp = bind_err (read_bytes 1 inp) (\<lambda>(bs, rest). Inr (hd bs, rest))"

definition read_u16 :: "u8 list \<Rightarrow> error + (u16 \<times> u8 list)" where
  "read_u16 inp = bind_err (read_bytes 2 inp) (\<lambda>(bs, rest). Inr (u16_of_bytes bs, rest))"

definition read_u32 :: "bool \<Rightarrow> u8 list \<Rightarrow> error + (u32 \<times> u8 list)" where
  "read_u32 strict inp =
     (if strict then bind_err (read_bytes 4 inp) (\<lambda>(bs, rest). Inr (u32_of_bytes bs, rest))
      else Inr (u32_of_bytes (take 4 inp), drop 4 inp))"

definition read_u64 :: "bool \<Rightarrow> u8 list \<Rightarrow> error + (u64 \<times> u8 list)" where
  "read_u64 strict inp =
     (if strict then bind_err (read_bytes 8 inp) (\<lambda>(bs, rest). Inr (u64_of_bytes bs, rest))
      else Inr (u64_of_bytes (take 8 inp), drop 8 inp))"

fun chunks4 :: "u8 list \<Rightarrow> u8 list list" where
  "chunks4 (a # b # c # d # rest) = [a, b, c, d] # chunks4 rest"
| "chunks4 _ = []"

definition read_words :: "u32 \<Rightarrow> u8 list \<Rightarrow> error + (u32 list \<times> u8 list)" where
  "read_words n inp =
     bind_err (read_bytes (4 * unat n) inp) (\<lambda>(bs, rest).
       Inr (map u32_of_bytes (chunks4 bs), rest))"

definition read_u32_if :: "bool \<Rightarrow> bool \<Rightarrow> u8 list \<Rightarrow> error + (u32 \<times> u8 list)" where
  "read_u32_if strict c inp = (if c then read_u32 strict inp else Inr (0, inp))"

definition read_hip_if ::
  "bool \<Rightarrow> bool \<Rightarrow> double \<times> double \<Rightarrow> u8 list \<Rightarrow> error + ((double \<times> double) \<times> u8 list)" where
  "read_hip_if strict c dflt inp =
     (if c then
        bind_err (read_u64 strict inp) (\<lambda>(kxp0, inp).
        bind_err (read_u64 strict inp) (\<lambda>(hip0, inp). Inr ((kxp0, hip0), inp)))
      else Inr (dflt, inp))"

definition read_words_if ::
  "bool \<Rightarrow> u32 \<Rightarrow> u8 list \<Rightarrow> error + (u32 list option \<times> u8 list)" where
  "read_words_if c n inp =
     (if c then bind_err (read_words n inp) (\<lambda>(ws, inp). Inr (Some ws, inp))
      else Inr (None, inp))"

text \<open>What both \<open>deserialize\<close> functions read, in their common order; \<open>strict\<close> tells
  the reads of the buffer from those of the stream.\<close>

record fields_read =
  fr_preamble_ints :: u8
  fr_serial_version :: u8
  fr_family_id :: u8
  fr_lg_k :: u8
  fr_first_interesting_column :: u8
  fr_flags_byte :: u8
  fr_seed_hash :: u16
  fr_compressed :: compressed_state
  fr_num_coupons :: u32
  fr_kxp :: double
  fr_hip_est_accum :: double

definition read_fields :: "bool \<Rightarrow> u8 list \<Rightarrow> error + (fields_read \<times> u8 list)" where
  "read_fields strict inp =
     bind_err (read_u8 inp) (\<lambda>(preamble_ints, inp).
     bind_err (read_u8 inp) (\<lambda>(serial_version, inp).
     bind_err (read_u8 inp) (\<lambda>(family_id, inp).
     bind_err (read_u8 inp) (\<lambda>(lgk, inp).
     bind_err (read_u8 inp) (\<lambda>(fic, inp).
     bind_err (read_u8 inp) (\<lambda>(flags_byte, inp).
     bind_err (read_u16 inp) (\<lambda>(seed_hash, inp).
       let has_hip = bit flags_byte HAS_HIP;
           has_table = bit flags_byte HAS_TABLE;
           has_window = bit flags_byte HAS_WINDOW;
           tw = (has_table \<or> has_window)
       in
       bind_err (read_u32_if strict tw inp) (\<lambda>(c, inp).
       bind_err (read_u32_if strict (tw \<and> has_table \<and> has_window) inp) (\<lambda>(num_entries, inp).
       bind_err (read_hip_if strict (tw \<and> has_table \<and> has_window \<and> has_hip) (0, 0) inp) (\<lambda>(hip1, inp).
       bind_err (read_u32_if strict (tw \<and> has_table) inp) (\<lambda>(table_words, inp).
       bind_err (read_u32_if strict (tw \<and> has_window) inp) (\<lambda>(window_words, inp).
       bind_err (read_hip_if strict (tw \<and> has_hip \<and> \<not> (has_table \<and> has_window)) hip1 inp) (\<lambda>(hip2, inp).
       bind_err (read_words_if (tw \<and> has_window) window_words inp) (\<lambda>(window_ptr, inp).
       bind_err (read_words_if (tw \<and> has_table) table_words inp) (\<lambda>(table_ptr, inp).
         Inr (\<lparr> fr_preamble_ints = preamble_ints, fr_serial_version = serial_version,
                 fr_family_id = family_id, fr_lg_k = lgk,
                 fr_first_interesting_column = fic, fr_flags_byte = flags_byte,
                 fr_seed_hash = seed_hash,
                 fr_compressed =
                   \<lparr> table_data_ptr = table_ptr, table_data_words = table_words,
                      table_num_entries = (if tw \<and> \<not> has_window then c else num_entries),
                      window_data_ptr = window_ptr, window_data_words = window_words \<rparr>,
                 fr_num_coupons = c, fr_kxp = fst hip2, fr_hip_est_accum = snd hip2 \<rparr>,
              inp))))))))))))))))"

text \<open>The checks and the construction that close both \<open>deserialize\<close> functions.\<close>

definition check_and_build :: "env \<Rightarrow> fields_read \<Rightarrow> u64 \<Rightarrow> error + cpc_sketch" where
  "check_and_build e f sd =
     (let has_hip = bit (fr_flags_byte f) HAS_HIP;
          has_table = bit (fr_flags_byte f) HAS_TABLE;
          has_window = bit (fr_flags_byte f) HAS_WINDOW;
          expected_preamble_ints = get_preamble_ints (fr_num_coupons f) has_hip has_table has_window
      in if fr_preamble_ints f \<noteq> expected_preamble_ints then Inl Invalid_argument
         else if fr_serial_version f \<noteq> SERIAL_VERSION e then Inl Invalid_argument
         else if fr_family_id f \<noteq> FAMILY e then Inl Invalid_argument
         else if fr_seed_hash f \<noteq> compute_seed_hash e sd then Inl Invalid_argument
         else bind_err (uncompress e (fr_compressed f) (fr_lg_k f) (fr_num_coupons f))
                (\<lambda>(table, window).
                  cpc_sketch_of_parts (fr_lg_k f) (fr_num_coupons f)
                    (fr_first_interesting_column f) table window has_hip
                    (fr_kxp f) (fr_hip_est_accum f) sd))"

text \<open>\<^verbatim>\<open>deserialize(std::istream& is, uint64_t seed)\<close>\<close>

definition deserialize :: "env \<Rightarrow> u8 list \<Rightarrow> u64 \<Rightarrow> error + cpc_sketch" where
  "deserialize e inp sd =
     bind_err (read_fields False inp) (\<lambda>(f, rest). check_and_build e f sd)"

text \<open>\<^verbatim>\<open>deserialize(const void* bytes, size_t size, uint64_t seed)\<close>: the buffer is the
  list of its \<open>size\<close> bytes, and all of them have to be consumed.\<close>

definition deserialize_bytes :: "env \<Rightarrow> u8 list \<Rightarrow> u64 \<Rightarrow> error + cpc_sketch" where
  "deserialize_bytes e inp sd =
     bind_err (read_fields True inp) (\<lambda>(f, rest).
       if rest \<noteq> [] then Inl Logic_error else check_and_build e f sd)"

text \<open>
  The four checks of \<open>deserialize\<close>, stated on the bytes of the input: the stored
  number of preamble words against the one recomputed from the stored coupon count
  and flags, the serial version, the family and the seed hash. The coupon count is
  read only when the flags announce a table or a window; it is zero otherwise.
\<close>

definition stored_num_coupons :: "u8 list \<Rightarrow> u32" where
  "stored_num_coupons inp =
     (if bit (inp ! 5) HAS_TABLE \<or> bit (inp ! 5) HAS_WINDOW
      then u32_of_bytes (take 4 (drop 8 inp)) else 0)"

definition preamble_checks_pass :: "env \<Rightarrow> u8 list \<Rightarrow> u64 \<Rightarrow> bool" where
  "preamble_checks_pass e inp sd =
     (8 \<le> length inp
      \<and> inp ! 0 = get_preamble_ints (stored_num_coupons inp)
                    (bit (inp ! 5) HAS_HIP) (bit (inp ! 5) HAS_TABLE) (bit (inp ! 5) HAS_WINDOW)
      \<and> inp ! 1 = SERIAL_VERSION e
      \<and> inp ! 2 = FAMILY e
      \<and> u16_of_bytes [inp ! 6, inp ! 7] = compute_seed_hash e sd)"

section \<open>The invariant of the window offset\<close>



section \<open>An instance of the parameters\<close>

text \<open>
  The theorems below hold for every environment. To run the model on concrete inputs
  one instance is fixed here: its hash reads the first bytes of the input as two
  integers, its compressor stores the codes of the table and the bytes of the window
  as they are (one 32-bit word each), and its operations on \<^verbatim>\<open>double\<close> act on the
  bit patterns as integers.
\<close>

definition identity_compress :: "cpc_sketch \<Rightarrow> compressed_state" where
  "identity_compress s =
     \<lparr> table_data_ptr = (if surprising_value_table s = [] then None
                          else Some (surprising_value_table s)),
        table_data_words = word_of_nat (length (surprising_value_table s)),
        table_num_entries = word_of_nat (length (surprising_value_table s)),
        window_data_ptr = (if sliding_window s = [] then None
                           else Some (map ucast (sliding_window s))),
        window_data_words = word_of_nat (length (sliding_window s)) \<rparr>"

definition identity_uncompress ::
  "compressed_state \<Rightarrow> u8 \<Rightarrow> u32 \<Rightarrow> error + (u32_table \<times> u8 list)" where
  "identity_uncompress c lgk n =
     Inr (case table_data_ptr c of None \<Rightarrow> [] | Some ws \<Rightarrow> ws,
          case window_data_ptr c of None \<Rightarrow> [] | Some ws \<Rightarrow> map ucast ws)"

definition example_env :: env where
  "example_env =
     \<lparr> MurmurHash3_x64_128 = (\<lambda>buf sd. (u64_of_bytes (take 8 buf) XOR sd, u64_of_bytes (drop 8 buf))),
        double_add = (+), double_sub = (-), double_mul = (*), double_div = (div),
        INVERSE_POWERS_OF_2 = (\<lambda>n. 0), KXP_BYTE_TABLE = (\<lambda>b. 0),
        compute_seed_hash = ucast, SERIAL_VERSION = 1, FAMILY = 16,
        compress = identity_compress, uncompress = identity_uncompress \<rparr>"

section \<open>Arithmetic of the machine values\<close>

lemma bind_err_simps [simp]:
  "bind_err (Inl e) f = Inl e" "bind_err (Inr x) f = f x"
  by (simp_all add: bind_err_def)

lemma pow2_le_26: "n \<le> 26 \<Longrightarrow> (2::nat) ^ n \<le> 67108864"
  using power_increasing [of n 26 "2::nat"] by simp

lemma pow2_le_26_int: "n \<le> 26 \<Longrightarrow> (2::int) ^ n \<le> 67108864"
  using power_increasing [of n 26 "2::int"] by simp

lemma int_shl_1: "n \<le> 26 \<Longrightarrow> int_shl 1 n = Inr (2 ^ n)"
  using pow2_le_26_int [of n] by (simp add: int_shl_def)

lemma scast_pow2: "n < 31 \<Longrightarrow> (scast (2 ^ n :: 32 word) :: 64 word) = 2 ^ n"
  by (rule bit_word_eqI) (auto simp: bit_simps)

lemma unat_of_nat_64: "n < 2 ^ 64 \<Longrightarrow> unat (word_of_nat n :: 64 word) = n"
  by (simp add: unat_of_nat)

lemma unat_lgk: "(lgk :: u8) \<le> 26 \<Longrightarrow> unat lgk \<le> 26"
  by (simp add: word_le_nat_alt)

lemma k_of_ok: "lgk \<le> 26 \<Longrightarrow> k_of lgk = Inr (2 ^ unat lgk)"
proof -
  assume "lgk \<le> 26"
  then have n: "unat lgk \<le> 26" by (rule unat_lgk)
  have "k_of lgk = Inr (int_to_u64 (2 ^ unat lgk))"
    unfolding k_of_def using int_shl_1 [OF n] by simp
  with n show ?thesis by (simp add: int_to_u64_def scast_pow2)
qed

lemma unat_mul_pow2:
  assumes "n \<le> 26" "a \<le> 1024"
  shows "unat (word_of_nat a * 2 ^ n :: 64 word) = a * 2 ^ n"
proof -
  have "a * 2 ^ n \<le> 1024 * 67108864"
    using assms pow2_le_26 [of n] by (intro mult_mono) simp_all
  then have "a * 2 ^ n < 2 ^ 64" by simp
  moreover have "(word_of_nat a * 2 ^ n :: 64 word) = word_of_nat (a * 2 ^ n)" by simp
  ultimately show ?thesis by (simp only: unat_of_nat_64)
qed

lemma unat_push_bit_64:
  assumes "unat c * 2 ^ m < 2 ^ 64"
  shows "unat (push_bit m (c :: 64 word)) = unat c * 2 ^ m"
proof -
  have "push_bit m c = word_of_nat (unat c * 2 ^ m)" by (simp add: push_bit_eq_mult)
  then show ?thesis using assms by (simp only: unat_of_nat_64)
qed

lemma unat_u32_less: "unat (c :: 32 word) < 4294967296"
  using unsigned_less [of c, where ?'a = nat] by simp

lemma unat_ucast_32_64: "unat (ucast (c :: 32 word) :: 64 word) = unat c"
  using unat_u32_less [of c] by (simp add: unsigned_ucast_eq take_bit_nat_eq_self)

lemma ucast_32_64_bound: "unat (ucast (c :: 32 word) :: 64 word) < 2 ^ 59"
  using unat_u32_less [of c] by (simp add: unat_ucast_32_64)

section \<open>The flavor thresholds\<close>

text \<open>
  The shifts \<^verbatim>\<open>c << 1\<close>, \<^verbatim>\<open>c << 3\<close> and \<^verbatim>\<open>c << 5\<close> of \<open>determine_flavor\<close> are
  taken on \<^verbatim>\<open>uint64_t\<close>; below \<open>2 ^ 59\<close> none of them wraps and the chain of
  comparisons is the one on the natural numbers.
\<close>

lemma determine_flavor_nat:
  assumes lg: "lgk \<le> 26" and c: "unat c < 2 ^ 59"
  shows "determine_flavor lgk c =
     Inr (if unat c = 0 then EMPTY
          else if 32 * unat c < 3 * 2 ^ unat lgk then SPARSE
          else if 2 * unat c < 2 ^ unat lgk then HYBRID
          else if 8 * unat c < 27 * 2 ^ unat lgk then PINNED
          else SLIDING)"
proof -
  from lg have n: "unat lgk \<le> 26" by (rule unat_lgk)
  have k3: "unat (3 * 2 ^ unat lgk :: 64 word) = 3 * 2 ^ unat lgk"
    using unat_mul_pow2 [OF n, of 3] by simp
  have k1: "unat (2 ^ unat lgk :: 64 word) = 2 ^ unat lgk"
    using unat_mul_pow2 [OF n, of 1] by simp
  have k27: "unat (27 * 2 ^ unat lgk :: 64 word) = 27 * 2 ^ unat lgk"
    using unat_mul_pow2 [OF n, of 27] by simp
  have c32: "unat (push_bit 5 c) = 32 * unat c"
    using c by (subst unat_push_bit_64) simp_all
  have c8: "unat (push_bit 3 c) = 8 * unat c"
    using c by (subst unat_push_bit_64) simp_all
  have c2: "unat (push_bit 1 c) = 2 * unat c"
    using c by (subst unat_push_bit_64) simp_all
  have c2': "unat (c * 2) = 2 * unat c"
    using c2 by (simp add: push_bit_eq_mult)
  show ?thesis
    unfolding determine_flavor_def k_of_ok [OF lg]
    by (simp add: Let_def word_less_nat_alt k1 k3 k27 c2' c8 c32 unat_eq_0)
qed

text \<open>
  Claim C4. For every \<open>lgk\<close> in \<open>[4, 26]\<close> and every coupon count \<open>C\<close> (a value of
  the type \<^verbatim>\<open>uint32_t\<close> of \<open>num_coupons\<close>, passed on as \<^verbatim>\<open>uint64_t\<close>), with
  \<open>K = 2 ^ lgk\<close>: \<open>determine_flavor\<close> returns \<open>EMPTY\<close> iff \<open>C = 0\<close>, \<open>SPARSE\<close> iff
  \<open>0 < C < 3K/32\<close>, \<open>HYBRID\<close> iff \<open>3K/32 \<le> C < K/2\<close>, \<open>PINNED\<close> iff
  \<open>K/2 \<le> C < 27K/8\<close> and \<open>SLIDING\<close> iff \<open>27K/8 \<le> C\<close>. The thresholds are the
  rational numbers: at \<open>lgk = 4\<close> the first one is \<open>1.5\<close>.
\<close>

theorem determine_flavor_table:
  fixes lgk :: u8 and c :: u32
  assumes "4 \<le> lgk" and "lgk \<le> 26"
  defines "K \<equiv> (2::nat) ^ unat lgk" and "C \<equiv> unat c"
  shows "(determine_flavor lgk (ucast c) = Inr EMPTY \<longleftrightarrow> C = 0)
       \<and> (determine_flavor lgk (ucast c) = Inr SPARSE \<longleftrightarrow> 0 < C \<and> real C < 3 * real K / 32)
       \<and> (determine_flavor lgk (ucast c) = Inr HYBRID \<longleftrightarrow> 3 * real K / 32 \<le> real C \<and> real C < real K / 2)
       \<and> (determine_flavor lgk (ucast c) = Inr PINNED \<longleftrightarrow> real K / 2 \<le> real C \<and> real C < 27 * real K / 8)
       \<and> (determine_flavor lgk (ucast c) = Inr SLIDING \<longleftrightarrow> 27 * real K / 8 \<le> real C)"
proof -
  have u: "unat (ucast c :: 64 word) = C" by (simp add: C_def unat_ucast_32_64)
  have Kpos: "0 < K" by (simp add: K_def)
  have r1: "(real C < 3 * real K / 32) = (32 * C < 3 * K)"
    by (simp add: field_simps) (metis of_nat_less_iff of_nat_mult of_nat_numeral)
  have r2: "(real C < real K / 2) = (2 * C < K)"
    by (simp add: field_simps) (metis of_nat_less_iff of_nat_mult of_nat_numeral)
  have r3: "(real C < 27 * real K / 8) = (8 * C < 27 * K)"
    by (simp add: field_simps) (metis of_nat_less_iff of_nat_mult of_nat_numeral)
  have df: "determine_flavor lgk (ucast c) =
     Inr (if C = 0 then EMPTY
          else if 32 * C < 3 * K then SPARSE
          else if 2 * C < K then HYBRID
          else if 8 * C < 27 * K then PINNED
          else SLIDING)"
    using determine_flavor_nat [OF assms(2) ucast_32_64_bound, of c] by (simp add: u K_def)
  show ?thesis
    unfolding df r1 r2 r3 not_less [symmetric] using Kpos by auto
qed

theorem determine_flavor_table_witness:
  "(4::u8) \<le> 4 \<and> (4::u8) \<le> 26
   \<and> determine_flavor 4 (ucast (0::u32)) = Inr EMPTY
   \<and> determine_flavor 4 (ucast (1::u32)) = Inr SPARSE
   \<and> determine_flavor 4 (ucast (3::u32)) = Inr HYBRID
   \<and> determine_flavor 4 (ucast (8::u32)) = Inr PINNED
   \<and> determine_flavor 4 (ucast (54::u32)) = Inr SLIDING"
  using determine_flavor_table [of 4 0] determine_flavor_table [of 4 1]
    determine_flavor_table [of 4 3] determine_flavor_table [of 4 8]
    determine_flavor_table [of 4 54]
  by simp

section \<open>The size of the preamble\<close>

text \<open>
  Claim C3, as amended. \<open>get_preamble_ints\<close> returns 2 when \<open>C = 0\<close>, whatever the
  flags; when \<open>C > 0\<close> it returns 3, plus 4 with \<open>HAS_HIP\<close>, plus 1 with \<open>HAS_TABLE\<close>
  and 1 more when \<open>HAS_WINDOW\<close> is set as well, plus 1 with \<open>HAS_WINDOW\<close>. The value
  is always one of 2, 3, 4, 6, 7, 8 or 10.
\<close>

theorem get_preamble_ints_values:
  "get_preamble_ints c has_hip has_table has_window =
     (if c = 0 then 2
      else 3 + (if has_hip then 4 else 0)
             + (if has_table then (if has_window then 2 else 1) else 0)
             + (if has_window then 1 else 0))
   \<and> get_preamble_ints c has_hip has_table has_window \<in> {2, 3, 4, 6, 7, 8, 10}"
  by (simp add: get_preamble_ints_def Let_def word_greater_zero_iff)

text \<open>
  The claim as stated fails where a table and a window are both written: two coupons,
  HIP values, a table and a window give a preamble of 10 words, outside
  \<open>{2, 3, 4, 5, 7, 8}\<close>.
\<close>

theorem get_preamble_ints_counterexample:
  "get_preamble_ints 2 True True True = 10
   \<and> get_preamble_ints 2 True True True \<notin> {2, 3, 4, 5, 7, 8}"
  by (simp add: get_preamble_ints_def Let_def)

section \<open>The coupon of two hashes\<close>

lemma clz_below_le: "clz_below n w \<le> n"
  by (induction n) auto

lemma clz_le_64: "count_leading_zeros_in_u64 w \<le> 64"
  by (simp add: count_leading_zeros_in_u64_def clz_below_le)

lemma clz_of_0: "count_leading_zeros_in_u64 0 = 64"
  by (simp add: count_leading_zeros_in_u64_def numeral_eq_Suc)

lemma col_clip:
  assumes "m \<le> 64"
  shows "(if (word_of_nat m :: u8) > 63 then 63 else word_of_nat m) = (word_of_nat (min m 63) :: u8)"
proof (cases "m = 64")
  case True
  then show ?thesis by simp
next
  case False
  with assms have m: "m \<le> 63" by simp
  then have "unat (word_of_nat m :: u8) = m" by (simp add: unat_of_nat)
  then have "\<not> (word_of_nat m :: u8) > 63" using m by (simp add: word_less_nat_alt)
  with m show ?thesis by (simp add: min_def)
qed

lemma ucast_col: "m \<le> 63 \<Longrightarrow> (ucast (word_of_nat m :: u8) :: u32) = word_of_nat m"
proof -
  assume "m \<le> 63"
  then have "unat (word_of_nat m :: u8) = m" by (simp add: unat_of_nat)
  then show ?thesis by (subst of_nat_unat [symmetric]) simp
qed

lemma row_low_bits:
  "(ucast ((h0 :: u64) AND (2 ^ n - 1)) :: u32) = word_of_nat (unat h0 mod 2 ^ n)"
proof -
  have "h0 AND (2 ^ n - 1) = take_bit n h0"
    by (simp only: take_bit_eq_mask mask_eq_decr_exp)
  moreover have "unat (take_bit n h0) = unat h0 mod 2 ^ n"
    by (subst unsigned_take_bit_eq) (rule take_bit_eq_mod)
  ultimately show ?thesis by (subst of_nat_unat [symmetric]) simp
qed

text \<open>
  Claim C6. For all 64-bit hashes \<open>h0\<close>, \<open>h1\<close> and every \<open>lgk\<close> in \<open>[4, 26]\<close>,
  \<open>row_col_from_two_hashes\<close> returns \<open>(row << 6) | col\<close> with
  \<open>col = min (clz64 h1) 63\<close> and \<open>row = h0 mod 2 ^ lgk\<close>, with bit 6 toggled when
  that value is \<open>0xFFFFFFFF\<close>; the sentinel \<open>0xFFFFFFFF\<close> is never returned.
\<close>

theorem row_col_from_two_hashes_spec:
  assumes "4 \<le> lgk" and "lgk \<le> 26"
  shows "row_col_from_two_hashes h0 h1 lgk =
           Inr (row_col_spec (unat h0) (count_leading_zeros_in_u64 h1) (unat lgk))
       \<and> row_col_from_two_hashes h0 h1 lgk \<noteq> Inr 0xFFFFFFFF"
proof -
  let ?m = "count_leading_zeros_in_u64 h1"
  have b6: "int_shl 1 6 = Inr 64" by (simp add: int_shl_def)
  have nlt: "\<not> lgk > 26" using assms(2) by simp
  have eq: "row_col_from_two_hashes h0 h1 lgk =
           Inr (row_col_spec (unat h0) ?m (unat lgk))"
    unfolding row_col_from_two_hashes_def row_col_spec_def k_of_ok [OF assms(2)]
    using nlt
    by (simp add: Let_def b6 col_clip [OF clz_le_64] ucast_col row_low_bits)
  have "row_col_spec a b c \<noteq> 0xFFFFFFFF" for a b c
    by (auto simp add: row_col_spec_def Let_def)
  with eq show ?thesis by simp
qed

theorem row_col_from_two_hashes_spec_witness:
  "(4::u8) \<le> 26 \<and> (26::u8) \<le> 26
   \<and> row_col_from_two_hashes 0x3FFFFFF 0 26 = Inr 0xFFFFFFBF
   \<and> row_col_from_two_hashes 0x3FFFFFF 0 26 \<noteq> Inr 0xFFFFFFFF"
  using row_col_from_two_hashes_spec [of 26 "0x3FFFFFF" 0]
  by (simp add: row_col_spec_def clz_of_0)

section \<open>The correct window offset\<close>

lemma uint_u32_less: "uint (c :: u32) < 4294967296"
  using unsigned_less [of c, where ?'a = int] by simp

lemma tmp_as_int:
  fixes c :: u32
  shows "push_bit 3 (ucast c :: u64) - 19 * 2 ^ n = word_of_int (8 * uint c - 19 * 2 ^ n)"
proof -
  have 1: "(ucast c :: u64) = word_of_int (uint c)" by (rule ucast_eq)
  have 2: "push_bit 3 (ucast c :: u64) = word_of_int 8 * ucast c"
    by (simp add: push_bit_eq_mult mult.commute)
  have 3: "(19 * 2 ^ n :: u64) = word_of_int 19 * word_of_int (2 ^ n)" by simp
  show ?thesis by (subst 2, subst 3, subst 1) (simp only: word_of_int_homs)
qed

lemma dco_tmp:
  fixes c :: u32
  assumes n: "n \<le> 26"
  shows "sint (push_bit 3 (ucast c :: u64) - 19 * 2 ^ n) = 8 * uint c - 19 * 2 ^ n"
proof -
  let ?A = "8 * uint c" and ?B = "19 * (2::int) ^ n"
  have "sint (push_bit 3 (ucast c :: u64) - 19 * 2 ^ n) = signed_take_bit 63 (?A - ?B)"
    unfolding tmp_as_int by (simp only: signed_of_int) simp
  moreover have "?A < 34359738368" using uint_u32_less [of c] by simp
  moreover have "?B \<le> 19 * 67108864" using pow2_le_26_int [OF n] by simp
  moreover have "0 \<le> ?A" "0 \<le> ?B" by simp_all
  ultimately show ?thesis by (simp add: signed_take_bit_int_eq_self)
qed

lemma ucast_nonneg: 
  fixes w :: u64
  assumes "0 \<le> sint w"
  shows "(ucast w :: u8) = word_of_int (sint w)"
proof -
  have "sint w < 2 ^ 63" using sint_lt [of w] by simp
  then have "take_bit 64 (sint w) = sint w" using assms by (simp add: take_bit_int_eq_self)
  then have "uint w = sint w" using uint_sint [of w] by simp
  then show ?thesis by (simp add: ucast_eq)
qed

lemma dco_nat:
  fixes c :: u32
  assumes lg: "lgk \<le> 26"
  shows "determine_correct_offset lgk (ucast c) =
           Inr (if 8 * unat c < 19 * 2 ^ unat lgk then 0
                else word_of_nat ((8 * unat c - 19 * 2 ^ unat lgk) div (8 * 2 ^ unat lgk)))"
proof -
  let ?n = "unat lgk"
  let ?tmp = "push_bit 3 (ucast c :: u64) - 19 * 2 ^ ?n"
  have n: "?n \<le> 26" using lg by (rule unat_lgk)
  have s: "sint ?tmp = 8 * uint c - 19 * 2 ^ ?n" using n by (rule dco_tmp)
  have e: "8 * uint c - 19 * 2 ^ ?n = int (8 * unat c) - int (19 * 2 ^ ?n)"
    by (simp add: uint_nat del: of_nat_unat)
  have neg: "(sint ?tmp < 0) = (8 * unat c < 19 * 2 ^ ?n)"
    unfolding s e by linarith
  show ?thesis
  proof (cases "8 * unat c < 19 * 2 ^ ?n")
    case True
    then show ?thesis
      unfolding determine_correct_offset_def k_of_ok [OF lg] using neg by (simp add: Let_def)
  next
    case False
    then have nn: "0 \<le> sint ?tmp" using neg by simp
    have "sint (signed_drop_bit (?n + 3) ?tmp) = (8 * uint c - 19 * 2 ^ ?n) div 2 ^ (?n + 3)"
      by (simp only: sint_signed_drop_bit_eq s drop_bit_eq_div)
    moreover have "0 \<le> (8 * uint c - 19 * 2 ^ ?n) div 2 ^ (?n + 3)"
      using nn s by (simp add: pos_imp_zdiv_nonneg_iff)
    ultimately have "(ucast (signed_drop_bit (?n + 3) ?tmp) :: u8)
        = word_of_int ((8 * uint c - 19 * 2 ^ ?n) div 2 ^ (?n + 3))"
      by (simp add: ucast_nonneg)
    also have "(8 * uint c - 19 * 2 ^ ?n) div 2 ^ (?n + 3) 
        = int ((8 * unat c - 19 * 2 ^ ?n) div (8 * 2 ^ ?n))"
      using False unfolding e
      by (simp add: of_nat_diff zdiv_int power_add mult.commute del: of_nat_unat)
    finally have "(ucast (signed_drop_bit (?n + 3) ?tmp) :: u8)
        = word_of_nat ((8 * unat c - 19 * 2 ^ ?n) div (8 * 2 ^ ?n))" by simp
    with False neg show ?thesis
      unfolding determine_correct_offset_def k_of_ok [OF lg] by (simp add: Let_def)
  qed
qed

section \<open>Updates by value\<close>

lemma maybe_insert_empty: "maybe_insert u32_table_new rc = (True, [rc])"
  by (simp add: maybe_insert_def u32_table_new_def)

lemma row_col_Inr:
  assumes "lgk \<le> 26"
  shows "\<exists>rc. row_col_from_two_hashes h0 h1 lgk = Inr rc"
  using assms unfolding row_col_from_two_hashes_def k_of_ok [OF assms]
  by (simp add: Let_def int_shl_def)

lemma shl_u32_1_5: "shl_u32_to_u64 1 5 = 32"
  by (simp add: shl_u32_to_u64_def)

lemma shl_u32_0: "shl_u32_to_u64 0 n = 0"
  by (simp add: shl_u32_to_u64_def)

text \<open>
  Claim C8 holds on the string path only. \<open>update\<close> of the empty string returns the
  sketch as it is. \<open>update(const void*, int)\<close> has no such guard: with a buffer of
  size 0 it hashes the empty input and updates with the coupon of that hash. On a new
  sketch (\<open>lg_k = 11\<close>) the call collects a coupon, whatever the hash function:
  \<open>num_coupons\<close> goes from 0 to 1 and the table receives an entry.
\<close>

theorem update_empty_buffer_not_noop:
  "update_string e s [] = Inr s
   \<and> (\<exists>s0 s1. cpc_sketch_new 11 sd = Inr s0 \<and> num_coupons s0 = 0
          \<and> update_bytes e s0 [] = Inr s1 \<and> num_coupons s1 = 1
          \<and> length (surprising_value_table s1) = 1)"
proof -
  have new: "cpc_sketch_new 11 sd = Inr \<lparr> lg_k = 11, seed = sd, was_merged = False, num_coupons = 0,
                  surprising_value_table = u32_table_new, sliding_window = [],
                  window_offset = 0, first_interesting_column = 0,
                  kxp = int_to_double 2048, hip_est_accum = 0 \<rparr>" (is "_ = Inr ?s0")
    by (simp add: cpc_sketch_new_def int_shl_def)
  obtain h1 h2 where h: "MurmurHash3_x64_128 e [] sd = (h1, h2)" by (cases "MurmurHash3_x64_128 e [] sd")
  obtain rc where rc: "row_col_from_two_hashes h1 h2 11 = Inr rc"
    using row_col_Inr [of 11 h1 h2] by auto
  have k: "k_of 11 = Inr 2048" using k_of_ok [of 11] by simp
  have "\<exists>s1. row_col_update e ?s0 rc = Inr s1 \<and> num_coupons s1 = 1 \<and> length (surprising_value_table s1) = 1"
    by (simp add: row_col_update_def update_sparse_def k maybe_insert_empty update_hip_def Let_def
        shl_u32_1_5 shl_u32_0)
  then show ?thesis
    using new h rc by (simp add: update_string_def update_bytes_def)
qed





text \<open>
  Claim C10. \<open>update(double)\<close> treats \<open>-0.0\<close> as \<open>0.0\<close>, treats every NaN as the
  pattern \<open>0x7ff8000000000000\<close>, and \<open>update(float)\<close> is \<open>update(double)\<close> of the
  converted value.
\<close>

theorem update_double_canonical:
  "update_double e s 0x8000000000000000 = update_double e s 0
   \<and> (double_isnan v \<longrightarrow> update_double e s v = update_double e s 0x7ff8000000000000
                          \<and> update_double e s v = update_int64 e s 0x7ff8000000000000)
   \<and> update_float e s x = update_double e s (float_to_double x)"
  by (simp add: update_double_def update_float_def update_int64_def double_is_zero_def double_isnan_def Let_def)

theorem update_double_canonical_witness:
  "double_isnan 0xFFF0000000000001
   \<and> (\<forall>e s. update_double e s 0xFFF0000000000001 = update_int64 e s 0x7ff8000000000000)"
proof -
  have n: "double_isnan 0xFFF0000000000001" by (simp add: double_isnan_def)
  have "update_double e s 0xFFF0000000000001 = update_int64 e s 0x7ff8000000000000" for e s
    using update_double_canonical [of e s "0xFFF0000000000001" 0] n by blast
  with n show ?thesis by blast
qed

section \<open>The validator\<close>

lemma popcount_sign_extended: "popcount64 0xFFFFFFFF80000000 = 33"
  by code_simp

lemma replicate_16: "replicate 16 x = x # replicate 15 x"
  by (simp add: numeral_eq_Suc)

lemma popcount_0: "popcount64 0 = 0"
  by (simp add: popcount64_def)

text \<open>
  Claim C1 fails on the code. \<open>build_bit_matrix\<close> flips the bit of a table code with
  \<^verbatim>\<open>matrix[row] ^= 1 << col\<close>, a shift on \<^verbatim>\<open>int\<close>: at \<open>col = 31\<close> the value is
  \<^verbatim>\<open>INT_MIN\<close>, whose conversion to \<^verbatim>\<open>uint64_t\<close> sets the bits 31 to 63, and beyond
  31 the shift is undefined. A new sketch (\<open>lg_k = 4\<close>) updated with the single coupon
  of row 0 and column 31 holds one coupon, its rebuilt matrix has 33 bits set, and
  \<open>validate\<close> returns false.
\<close>

theorem validate_fails_at_col_31:
  "\<exists>s0 s1. cpc_sketch_new 4 sd = Inr s0
      \<and> row_col_update e s0 31 = Inr s1
      \<and> num_coupons s1 = 1
      \<and> build_bit_matrix s1 = Inr (0xFFFFFFFF80000000 # replicate 15 0)
      \<and> validate s1 = Inr False"
proof -
  let ?s0 = "\<lparr> lg_k = 4, seed = sd, was_merged = False, num_coupons = 0,
                  surprising_value_table = u32_table_new, sliding_window = [],
                  window_offset = 0, first_interesting_column = 0,
                  kxp = int_to_double 16, hip_est_accum = 0 \<rparr>"
  have new: "cpc_sketch_new 4 sd = Inr ?s0"
    by (simp add: cpc_sketch_new_def int_shl_def)
  have k: "k_of 4 = Inr 16" using k_of_ok [of 4] by simp
  obtain s1 where upd: "row_col_update e ?s0 31 = Inr s1"
    and s1: "num_coupons s1 = 1" "surprising_value_table s1 = [31]" "sliding_window s1 = []"
      "window_offset s1 = 0" "lg_k s1 = 4"
    by (simp add: row_col_update_def update_sparse_def k maybe_insert_empty update_hip_def Let_def
        shl_u32_1_5 shl_u32_0)
  have shl31: "int_shl 1 31 = Inr 0x80000000" by (simp add: int_shl_def)
  have sx: "int_to_u64 0x80000000 = 0xFFFFFFFF80000000" by (simp add: int_to_u64_def)
  have m: "build_bit_matrix s1 = Inr (0xFFFFFFFF80000000 # replicate 15 0)"
    by (simp add: build_bit_matrix_def s1 k int_shl_def int_decr_def get_slots_def flip_slot_def
        Let_def int_to_u64_def replicate_16)
  have "validate s1 = Inr False"
    by (simp add: validate_def m count_bits_set_in_matrix_def popcount_sign_extended popcount_0 s1)
  with new upd s1 m show ?thesis by blast
qed

section \<open>Serialization and its inverse\<close>

lemma bit_length_2048: "bit_length 2048 = 12"
  by code_simp

lemma double_2048: "int_to_double 2048 = 0x40A0000000000000"
  by (simp add: int_to_double_def double_of_nat_def bit_length_2048)

lemma u16_round_trip: "u16_of_bytes (bytes_of_u16 h) = h"
  unfolding u16_of_bytes_def bytes_of_u16_def
  by (simp add: upt_rec) (rule bit_word_eqI, auto simp: bit_simps)

lemma read_u8_Cons: "read_u8 (b # bs) = Inr (b, bs)"
  by (simp add: read_u8_def read_bytes_def)

lemma read_u16_Cons: "read_u16 (a # b # bs) = Inr (u16_of_bytes [a, b], bs)"
  by (simp add: read_u16_def read_bytes_def)

lemma bytes_of_u16_list: "bytes_of_u16 h = [ucast h, ucast (drop_bit 8 h)]"
  by (simp add: bytes_of_u16_def upt_rec)

lemma flags_hip_only: "flags_byte_of True False False = 3"
  by (simp add: flags_byte_of_def IS_COMPRESSED_def HAS_HIP_def)

text \<open>
  Claim C2 fails on the code for the empty sketch. The constructor seeds \<open>kxp\<close> with
  \<open>k\<close>; \<open>serialize\<close> writes nothing after the preamble when there is no coupon, and
  \<open>deserialize\<close> then keeps its initial \<^verbatim>\<open>double kxp = 0\<close>. With a compressor that
  gives an empty sketch neither table nor window, the sketch read back from the 8
  bytes of a new sketch (\<open>lg_k = 11\<close>) has \<open>kxp = 0.0\<close> where the original has
  \<open>2048.0\<close>.
\<close>

theorem empty_sketch_round_trip_loses_kxp:
  assumes new: "cpc_sketch_new 11 sd = Inr s0"
    and nt: "table_data_ptr (compress e s0) = None"
    and nw: "window_data_ptr (compress e s0) = None"
    and un: "uncompress e \<lparr> table_data_ptr = None, table_data_words = 0, table_num_entries = 0,
                            window_data_ptr = None, window_data_words = 0 \<rparr> 11 0 = Inr (t, w)"
  shows "\<exists>bytes s1. serialize e s0 = Inr bytes \<and> length bytes = 8
           \<and> deserialize e bytes sd = Inr s1
           \<and> num_coupons s1 = num_coupons s0 \<and> lg_k s1 = lg_k s0
           \<and> kxp s0 = 0x40A0000000000000 \<and> kxp s1 = 0"
proof -
  have s0: "s0 = \<lparr> lg_k = 11, seed = sd, was_merged = False, num_coupons = 0,
                  surprising_value_table = u32_table_new, sliding_window = [],
                  window_offset = 0, first_interesting_column = 0,
                  kxp = int_to_double 2048, hip_est_accum = 0 \<rparr>"
    using new by (simp add: cpc_sketch_new_def int_shl_def)
  have f: "num_coupons s0 = 0" "lg_k s0 = 11" "was_merged s0 = False" "seed s0 = sd"
    "first_interesting_column s0 = 0" "kxp s0 = 0x40A0000000000000"
    by (simp_all add: s0 double_2048)
  let ?h = "compute_seed_hash e sd"
  let ?bytes = "[2, SERIAL_VERSION e, FAMILY e, 11, 0, 3, ucast ?h, ucast (drop_bit 8 ?h)]"
  have ser: "serialize e s0 = Inr ?bytes"
    by (simp add: serialize_def Let_def nt nw f is_empty_def get_preamble_ints_def flags_hip_only
        bytes_of_u16_list)
  have dco: "determine_correct_offset 11 0 = Inr 0"
    using dco_nat [of 11 0] by simp
  have rf: "read_fields False ?bytes = Inr (\<lparr> fr_preamble_ints = 2, fr_serial_version = SERIAL_VERSION e,
                 fr_family_id = FAMILY e, fr_lg_k = 11,
                 fr_first_interesting_column = 0, fr_flags_byte = 3,
                 fr_seed_hash = compute_seed_hash e sd,
                 fr_compressed =
                   \<lparr> table_data_ptr = None, table_data_words = 0,
                      table_num_entries = 0,
                      window_data_ptr = None, window_data_words = 0 \<rparr>,
                 fr_num_coupons = 0, fr_kxp = 0, fr_hip_est_accum = 0 \<rparr>, [])"
    by (simp add: read_fields_def read_u8_Cons read_u16_Cons bytes_of_u16_list
        HAS_HIP_def HAS_TABLE_def HAS_WINDOW_def read_u32_if_def read_hip_if_def read_words_if_def
        u16_round_trip [unfolded bytes_of_u16_list])
  have "\<exists>s1. deserialize e ?bytes sd = Inr s1 \<and> num_coupons s1 = 0 \<and> lg_k s1 = 11 \<and> kxp s1 = 0"
    by (simp add: deserialize_def rf check_and_build_def get_preamble_ints_def un
        cpc_sketch_of_parts_def dco HAS_HIP_def HAS_TABLE_def HAS_WINDOW_def)
  then show ?thesis using ser f by auto
qed

lemma bind_err_Inr_iff: "bind_err m f = Inr y \<longleftrightarrow> (\<exists>x. m = Inr x \<and> f x = Inr y)"
  by (cases m) simp_all

lemma read_u8_Inr: "read_u8 inp = Inr (b, rest) \<longleftrightarrow> inp = b # rest"
  by (cases inp) (auto simp: read_u8_def read_bytes_def)

lemma read_u16_Inr:
  "read_u16 inp = Inr (h, rest) \<longleftrightarrow> (\<exists>a b. inp = a # b # rest \<and> h = u16_of_bytes [a, b])"
proof (cases inp)
  case Nil
  then show ?thesis by (simp add: read_u16_def read_bytes_def)
next
  case (Cons a tl)
  then show ?thesis by (cases tl) (auto simp: read_u16_def read_bytes_def)
qed

lemma read_u32_Inr:
  "read_u32 strict inp = Inr (c, rest) \<Longrightarrow> c = u32_of_bytes (take 4 inp) \<and> rest = drop 4 inp"
  by (auto simp: read_u32_def read_bytes_def split: if_splits)

lemma read_fields_header:
  assumes "read_fields strict inp = Inr (f, rest)"
  shows "8 \<le> length inp \<and> fr_preamble_ints f = inp ! 0 \<and> fr_serial_version f = inp ! 1
    \<and> fr_family_id f = inp ! 2 \<and> fr_flags_byte f = inp ! 5
    \<and> fr_seed_hash f = u16_of_bytes [inp ! 6, inp ! 7]
    \<and> fr_num_coupons f = stored_num_coupons inp"
  using assms unfolding read_fields_def
  apply (clarsimp simp: bind_err_Inr_iff read_u8_Inr read_u16_Inr Let_def)
  apply (auto simp: stored_num_coupons_def read_u32_if_def dest!: read_u32_Inr split: if_splits)
  done

lemma check_and_build_Inr:
  assumes "check_and_build e f sd = Inr s"
  shows "fr_preamble_ints f = get_preamble_ints (fr_num_coupons f)
            (bit (fr_flags_byte f) HAS_HIP) (bit (fr_flags_byte f) HAS_TABLE)
            (bit (fr_flags_byte f) HAS_WINDOW)
       \<and> fr_serial_version f = SERIAL_VERSION e \<and> fr_family_id f = FAMILY e
       \<and> fr_seed_hash f = compute_seed_hash e sd"
  using assms by (simp add: check_and_build_def Let_def split: if_splits)

lemma check_and_build_mismatch:
  assumes "\<not> (fr_preamble_ints f = get_preamble_ints (fr_num_coupons f)
            (bit (fr_flags_byte f) HAS_HIP) (bit (fr_flags_byte f) HAS_TABLE)
            (bit (fr_flags_byte f) HAS_WINDOW)
       \<and> fr_serial_version f = SERIAL_VERSION e \<and> fr_family_id f = FAMILY e
       \<and> fr_seed_hash f = compute_seed_hash e sd)"
  shows "check_and_build e f sd = Inl Invalid_argument"
  using assms by (auto simp add: check_and_build_def Let_def)

lemma read_fields_checks:
  assumes "read_fields strict inp = Inr (f, rest)"
  shows "preamble_checks_pass e inp sd \<longleftrightarrow>
       (fr_preamble_ints f = get_preamble_ints (fr_num_coupons f)
            (bit (fr_flags_byte f) HAS_HIP) (bit (fr_flags_byte f) HAS_TABLE)
            (bit (fr_flags_byte f) HAS_WINDOW)
       \<and> fr_serial_version f = SERIAL_VERSION e \<and> fr_family_id f = FAMILY e
       \<and> fr_seed_hash f = compute_seed_hash e sd)"
  using read_fields_header [OF assms] by (simp add: preamble_checks_pass_def)

text \<open>
  Claim C7. Whenever the stored preamble word count differs from the recomputed one,
  or the serial version, the family or the seed hash does not match, \<open>deserialize\<close>
  raises an error and constructs no sketch; a sketch is returned only if all four
  checks pass. This holds for the stream and for the buffer; the buffer version can
  raise its size error first. An input too short for the fields it announces is
  read past its end.
\<close>

theorem deserialize_validates:
  "(read_fields False inp = Inr (f, rest) \<and> \<not> preamble_checks_pass e inp sd \<longrightarrow>
      deserialize e inp sd = Inl Invalid_argument)
   \<and> (read_fields True inp = Inr (f, rest) \<and> \<not> preamble_checks_pass e inp sd \<longrightarrow>
      deserialize_bytes e inp sd \<in> {Inl Invalid_argument, Inl Logic_error})
   \<and> (deserialize e inp sd = Inr s \<longrightarrow> preamble_checks_pass e inp sd)
   \<and> (deserialize_bytes e inp sd = Inr s \<longrightarrow> preamble_checks_pass e inp sd)"
proof (intro conjI impI)
  assume a: "read_fields False inp = Inr (f, rest) \<and> \<not> preamble_checks_pass e inp sd"
  then have "check_and_build e f sd = Inl Invalid_argument"
    using read_fields_checks [of False inp f rest e sd] check_and_build_mismatch [of f e sd] by blast
  with a show "deserialize e inp sd = Inl Invalid_argument"
    by (simp add: deserialize_def)
next
  assume a: "read_fields True inp = Inr (f, rest) \<and> \<not> preamble_checks_pass e inp sd"
  then have "check_and_build e f sd = Inl Invalid_argument"
    using read_fields_checks [of True inp f rest e sd] check_and_build_mismatch [of f e sd] by blast
  with a show "deserialize_bytes e inp sd \<in> {Inl Invalid_argument, Inl Logic_error}"
    by (simp add: deserialize_bytes_def)
next
  assume "deserialize e inp sd = Inr s"
  then obtain f' rest' strict where r: "read_fields strict inp = Inr (f', rest')"
    and c: "check_and_build e f' sd = Inr s"
    by (auto simp: deserialize_def bind_err_Inr_iff)
  show "preamble_checks_pass e inp sd"
    using read_fields_checks [OF r, of e sd] check_and_build_Inr [OF c] by simp
next
  assume "deserialize_bytes e inp sd = Inr s"
  then obtain f' rest' strict where r: "read_fields strict inp = Inr (f', rest')"
    and c: "check_and_build e f' sd = Inr s"
    by (auto simp: deserialize_bytes_def bind_err_Inr_iff split: if_splits)
  show "preamble_checks_pass e inp sd"
    using read_fields_checks [OF r, of e sd] check_and_build_Inr [OF c] by simp
qed

lemma example_env_simps:
  "SERIAL_VERSION example_env = 1" "FAMILY example_env = 16"
  "compute_seed_hash example_env = ucast"
  "compress example_env = identity_compress" "uncompress example_env = identity_uncompress"
  by (simp_all add: example_env_def)

lemma read_fields_empty_sketch:
  "read_fields strict [p, v, fam, 11, 0, 3, 41, 35] =
     Inr (\<lparr> fr_preamble_ints = p, fr_serial_version = v, fr_family_id = fam, fr_lg_k = 11,
             fr_first_interesting_column = 0, fr_flags_byte = 3, fr_seed_hash = 9001,
             fr_compressed = \<lparr> table_data_ptr = None, table_data_words = 0,
                               table_num_entries = 0, window_data_ptr = None,
                               window_data_words = 0 \<rparr>,
             fr_num_coupons = 0, fr_kxp = 0, fr_hip_est_accum = 0 \<rparr>, [])"
  by (simp add: read_fields_def read_u8_Cons read_u16_Cons u16_of_bytes_def
        HAS_HIP_def HAS_TABLE_def HAS_WINDOW_def read_u32_if_def read_hip_if_def read_words_if_def)

theorem deserialize_validates_witness:
  "read_fields False [2, 1, 17, 11, 0, 3, 41, 35] =
     Inr (\<lparr> fr_preamble_ints = 2, fr_serial_version = 1, fr_family_id = 17, fr_lg_k = 11,
             fr_first_interesting_column = 0, fr_flags_byte = 3, fr_seed_hash = 9001,
             fr_compressed = \<lparr> table_data_ptr = None, table_data_words = 0,
                               table_num_entries = 0, window_data_ptr = None,
                               window_data_words = 0 \<rparr>,
             fr_num_coupons = 0, fr_kxp = 0, fr_hip_est_accum = 0 \<rparr>, [])
   \<and> \<not> preamble_checks_pass example_env [2, 1, 17, 11, 0, 3, 41, 35] 9001
   \<and> deserialize example_env [2, 1, 17, 11, 0, 3, 41, 35] 9001 = Inl Invalid_argument
   \<and> deserialize example_env [2, 1, 16, 11, 0, 3, 41, 35] 9001 =
       Inr \<lparr> lg_k = 11, seed = 9001, was_merged = False, num_coupons = 0,
              surprising_value_table = [], sliding_window = [],
              window_offset = 0, first_interesting_column = 0,
              kxp = 0, hip_est_accum = 0 \<rparr>
   \<and> preamble_checks_pass example_env [2, 1, 16, 11, 0, 3, 41, 35] 9001"
proof -
  let ?bad = "[2, 1, 17, 11, 0, 3, 41, 35] :: u8 list"
  let ?good = "[2, 1, 16, 11, 0, 3, 41, 35] :: u8 list"
  let ?s = "\<lparr> lg_k = 11, seed = 9001, was_merged = False, num_coupons = 0,
              surprising_value_table = [], sliding_window = [],
              window_offset = 0, first_interesting_column = 0,
              kxp = 0, hip_est_accum = 0 \<rparr>"
  have h1: "read_fields False ?bad = Inr (\<lparr> fr_preamble_ints = 2, fr_serial_version = 1, fr_family_id = 17, fr_lg_k = 11,
             fr_first_interesting_column = 0, fr_flags_byte = 3, fr_seed_hash = 9001,
             fr_compressed = \<lparr> table_data_ptr = None, table_data_words = 0,
                               table_num_entries = 0, window_data_ptr = None,
                               window_data_words = 0 \<rparr>,
             fr_num_coupons = 0, fr_kxp = 0, fr_hip_est_accum = 0 \<rparr>, [])"
    by (rule read_fields_empty_sketch)
  have h2: "\<not> preamble_checks_pass example_env ?bad 9001"
    by (simp add: preamble_checks_pass_def example_env_simps)
  have c1: "deserialize example_env ?bad 9001 = Inl Invalid_argument"
    using deserialize_validates [of ?bad _ "[]" example_env 9001] h1 h2 by blast
  have dco: "determine_correct_offset 11 0 = Inr 0"
    using dco_nat [of 11 0] by simp
  have h3: "deserialize example_env ?good 9001 = Inr ?s"
    by (simp add: deserialize_def read_fields_empty_sketch check_and_build_def
        get_preamble_ints_def example_env_simps identity_uncompress_def
        cpc_sketch_of_parts_def dco HAS_HIP_def HAS_TABLE_def HAS_WINDOW_def)
  have c2: "preamble_checks_pass example_env ?good 9001"
    using deserialize_validates [of ?good _ _ example_env 9001 ?s] h3 by blast
  show ?thesis using h1 h2 c1 h3 c2 by simp
qed

theorem empty_sketch_round_trip_loses_kxp_witness:
  "cpc_sketch_new 11 9001 =
     Inr \<lparr> lg_k = 11, seed = 9001, was_merged = False, num_coupons = 0,
            surprising_value_table = [], sliding_window = [],
            window_offset = 0, first_interesting_column = 0,
            kxp = 0x40A0000000000000, hip_est_accum = 0 \<rparr>
   \<and> serialize example_env \<lparr> lg_k = 11, seed = 9001, was_merged = False, num_coupons = 0,
            surprising_value_table = [], sliding_window = [],
            window_offset = 0, first_interesting_column = 0,
            kxp = 0x40A0000000000000, hip_est_accum = 0 \<rparr> = Inr [2, 1, 16, 11, 0, 3, 41, 35]
   \<and> deserialize example_env [2, 1, 16, 11, 0, 3, 41, 35] 9001 =
       Inr \<lparr> lg_k = 11, seed = 9001, was_merged = False, num_coupons = 0,
              surprising_value_table = [], sliding_window = [],
              window_offset = 0, first_interesting_column = 0,
              kxp = 0, hip_est_accum = 0 \<rparr>"
proof -
  let ?s0 = "\<lparr> lg_k = 11, seed = 9001, was_merged = False, num_coupons = 0,
            surprising_value_table = [], sliding_window = [],
            window_offset = 0, first_interesting_column = 0,
            kxp = 0x40A0000000000000, hip_est_accum = 0 \<rparr>"
  have new: "cpc_sketch_new 11 9001 = Inr ?s0"
    by (simp add: cpc_sketch_new_def int_shl_def double_2048 u32_table_new_def)
  have nt: "table_data_ptr (compress example_env ?s0) = None"
    and nw: "window_data_ptr (compress example_env ?s0) = None"
    by (simp_all add: example_env_simps identity_compress_def)
  have un: "uncompress example_env \<lparr> table_data_ptr = None, table_data_words = 0, table_num_entries = 0,
                            window_data_ptr = None, window_data_words = 0 \<rparr> 11 0 = Inr ([], [])"
    by (simp add: example_env_simps identity_uncompress_def)
  from empty_sketch_round_trip_loses_kxp [OF new nt nw un]
  obtain bytes s1 where r: "serialize example_env ?s0 = Inr bytes" "length bytes = 8"
    "deserialize example_env bytes 9001 = Inr s1" "kxp s1 = 0" by blast
  have ser: "serialize example_env ?s0 = Inr [2, 1, 16, 11, 0, 3, 41, 35]"
    by (simp add: serialize_def Let_def is_empty_def get_preamble_ints_def flags_hip_only
        bytes_of_u16_list example_env_simps identity_compress_def)
  have dco: "determine_correct_offset 11 0 = Inr 0"
    using dco_nat [of 11 0] by simp
  have "deserialize example_env [2, 1, 16, 11, 0, 3, 41, 35] 9001 =
       Inr \<lparr> lg_k = 11, seed = 9001, was_merged = False, num_coupons = 0,
              surprising_value_table = [], sliding_window = [],
              window_offset = 0, first_interesting_column = 0,
              kxp = 0, hip_est_accum = 0 \<rparr>"
    by (simp add: deserialize_def read_fields_empty_sketch check_and_build_def
        get_preamble_ints_def example_env_simps identity_uncompress_def
        cpc_sketch_of_parts_def dco HAS_HIP_def HAS_TABLE_def HAS_WINDOW_def)
  with new ser r show ?thesis by simp
qed

section \<open>The window offset after every operation\<close>












































end
